theory Spec2Isabelle
  imports Main
begin

section \<open>Data model: yaml nodes in a store\<close>

text \<open>
  The package works on \<^verbatim>\<open>*yaml.Node\<close> values and mutates them in place, so nodes
  live in a store and are referred to by address. The store holds the nodes allocated
  so far and the backing arrays of their \<^verbatim>\<open>Content\<close> slices; the address of a node is
  its position in \<open>Nodes\<close>, and a new node or array is allocated at the end. An address
  outside the store stands for Go's \<^verbatim>\<open>nil\<close>: reading through it is a runtime panic.

  A slice is what Go makes of it: a backing array (its position in \<open>Arrays\<close>), the offset
  of the first element in that array, a length and a capacity. Two slices on one array
  share its cells, so a write through one is seen through the other. The nil slice has
  length and capacity zero.

  Of the fields of \<^verbatim>\<open>yaml.Node\<close> the record keeps those that yptr.go reads or writes
  (\<^verbatim>\<open>Kind\<close>, \<^verbatim>\<open>Tag\<close>, \<^verbatim>\<open>Value\<close>, \<^verbatim>\<open>Content\<close>) and the position
  (\<^verbatim>\<open>Line\<close>, \<^verbatim>\<open>Column\<close>). A kind is one of the five constants of the yaml
  package.
\<close>

datatype kind = DocumentNode | SequenceNode | MappingNode | ScalarNode | AliasNode

type_synonym addr = nat

record slice =
  Arr :: nat
  Off :: nat
  Len :: nat
  Cap :: nat

definition nil_slice :: slice where
  "nil_slice = \<lparr>Arr = 0, Off = 0, Len = 0, Cap = 0\<rparr>"

record node =
  Kind :: kind
  Tag :: string
  Value :: string
  Content :: slice
  Line :: nat
  Column :: nat

record heap =
  Nodes :: "node list"
  Arrays :: "addr list list"

definition lookup :: "heap \<Rightarrow> addr \<Rightarrow> node option" where
  "lookup h a = (if a < length (Nodes h) then Some (Nodes h ! a) else None)"

text \<open>
  \<open>elems\<close> reads a slice: the cells of its array from the offset on, as many as its
  length. Every slice that Go builds lies within its array, with its length at most its
  capacity and within the range of \<^verbatim>\<open>int\<close>: that is \<open>wf_slice\<close>. All reads of the
  package (\<^verbatim>\<open>len(c)\<close>, \<^verbatim>\<open>c[i]\<close>, \<^verbatim>\<open>range c\<close>) go through \<open>elems\<close>.
\<close>

definition array :: "heap \<Rightarrow> nat \<Rightarrow> addr list" where
  "array h k = (if k < length (Arrays h) then Arrays h ! k else [])"

definition elems :: "heap \<Rightarrow> slice \<Rightarrow> addr list" where
  "elems h s = take (Len s) (drop (Off s) (array h (Arr s)))"

definition wf_slice :: "heap \<Rightarrow> slice \<Rightarrow> bool" where
  "wf_slice h s \<longleftrightarrow>
     Len s \<le> Cap s \<and> Len s < 2 ^ 63 \<and>
     (0 < Cap s \<longrightarrow> Arr s < length (Arrays h) \<and> Off s + Cap s \<le> length (Arrays h ! Arr s))"

text \<open>
  The composite literal \<^verbatim>\<open>yaml.Node{Kind: k, Tag: t, Value: v}\<close>: its content is the
  nil slice.
\<close>

definition mk_node :: "kind \<Rightarrow> string \<Rightarrow> string \<Rightarrow> node" where
  "mk_node k t v = \<lparr>Kind = k, Tag = t, Value = v, Content = nil_slice, Line = 0, Column = 0\<rparr>"

text \<open>Allocation of new nodes, and assignment to a node and to its \<^verbatim>\<open>Content\<close> field.\<close>

definition alloc :: "heap \<Rightarrow> node list \<Rightarrow> heap" where
  "alloc h ns = h\<lparr>Nodes := Nodes h @ ns\<rparr>"

definition set_node :: "heap \<Rightarrow> addr \<Rightarrow> node \<Rightarrow> heap" where
  "set_node h a n = h\<lparr>Nodes := (Nodes h)[a := n]\<rparr>"

definition set_Content :: "heap \<Rightarrow> addr \<Rightarrow> slice \<Rightarrow> heap" where
  "set_Content h a s = set_node h a ((Nodes h ! a)\<lparr>Content := s\<rparr>)"

subsection \<open>Errors and outcomes\<close>

text \<open>
  One constructor for each error value the package builds. \<open>Wrap s e\<close> is
  \<^verbatim>\<open>fmt.Errorf("%q: %w", s, e)\<close>, \<open>GotMatches n e\<close> is
  \<^verbatim>\<open>fmt.Errorf("got %d matches: %w", n, e)\<close>.
\<close>

datatype error =
    ErrNotFound
  | ErrTooManyResults
  | InvalidEmptyPointer
  | PointerSyntax
  | MalformedTree nat
  | YamlError string
  | AtoiError string
  | OutOfBounds
  | UnhandledNodeType kind string
  | CannotInsert kind string kind string
  | BadState string
  | Wrap string error
  | GotMatches nat error

text \<open>\<^verbatim>\<open>errors.Is(err, ErrNotFound)\<close>: follows the \<^verbatim>\<open>%w\<close> chain.\<close>

fun is_ErrNotFound :: "error \<Rightarrow> bool" where
  "is_ErrNotFound ErrNotFound = True"
| "is_ErrNotFound (Wrap s e) = is_ErrNotFound e"
| "is_ErrNotFound (GotMatches n e) = is_ErrNotFound e"
| "is_ErrNotFound _ = False"

text \<open>
  A call returns a value and the store it leaves (\<open>Ok\<close>), returns an error and the
  store it leaves (\<open>Err\<close>), or panics (nil dereference, index out of range).
  A call that does not return is \<open>None\<close> of the option type around the outcome.
\<close>

datatype 'a outcome = Ok 'a heap | Err error heap | Panic

subsection \<open>Library functions\<close>

definition HasPrefix :: "string \<Rightarrow> string \<Rightarrow> bool" where
  "HasPrefix s p = (take (length p) s = p)"

text \<open>\<^verbatim>\<open>strings.Split(s, "/")\<close>: the pieces between the separators, at least one.\<close>

fun Split :: "string \<Rightarrow> string list" where
  "Split [] = [[]]"
| "Split (x # xs) =
     (if x = CHR ''/'' then [] # Split xs
      else (case Split xs of [] \<Rightarrow> [[x]] | w # ws \<Rightarrow> (x # w) # ws))"

text \<open>
  \<^verbatim>\<open>strconv.Atoi\<close> on a 64-bit platform: an optional sign, then one or more decimal
  digits, the value within the range of \<^verbatim>\<open>int\<close>; anything else is an error.
\<close>

definition is_digit :: "char \<Rightarrow> bool" where
  "is_digit c = (of_char CHR ''0'' \<le> (of_char c :: nat) \<and> (of_char c :: nat) \<le> of_char CHR ''9'')"

definition digit_val :: "char \<Rightarrow> nat" where
  "digit_val c = of_char c - of_char CHR ''0''"

fun digits_val :: "nat \<Rightarrow> string \<Rightarrow> nat option" where
  "digits_val n [] = Some n"
| "digits_val n (c # cs) =
     (if is_digit c then digits_val (n * 10 + digit_val c) cs else None)"

definition Atoi :: "string \<Rightarrow> int option" where
  "Atoi s =
     (let neg = (s \<noteq> [] \<and> hd s = CHR ''-'');
          ds = (if s \<noteq> [] \<and> (hd s = CHR ''-'' \<or> hd s = CHR ''+'') then tl s else s)
      in if ds = [] then None
         else (case digits_val 0 ds of
                 None \<Rightarrow> None
               | Some n \<Rightarrow>
                   let i = (if neg then - int n else int n)
                   in if - (2 ^ 63) \<le> i \<and> i < 2 ^ 63 then Some i else None))"

text \<open>
  The built-in \<^verbatim>\<open>append(s, xs...)\<close>. When the capacity of \<open>s\<close> has room for the new
  elements it writes them into the array of \<open>s\<close> after the last element, in place, and
  returns a slice on the same array; every other slice on that array sees the cells
  that were written. Otherwise it allocates a new array, copies the elements of \<open>s\<close>
  and the new ones into it, and leaves the old array as it was. How much larger than
  needed the new array is depends on the Go runtime: \<open>slack c n\<close> is the number of
  spare cells it adds when a slice of capacity \<open>c\<close> grows to \<open>n\<close> elements, a parameter
  of the model. The spare cells hold \<^verbatim>\<open>nil\<close>; the package never reads a cell beyond the
  length of a slice, and the model fills them with 0. The new elements are a list, read
  before anything is written, as \<^verbatim>\<open>append\<close> does when source and destination overlap.

  \<open>splice ys p xs\<close> is \<^verbatim>\<open>copy(ys[p:], xs)\<close> for \<open>xs\<close> that fit.
\<close>

definition splice :: "'a list \<Rightarrow> nat \<Rightarrow> 'a list \<Rightarrow> 'a list" where
  "splice ys p xs = take p ys @ xs @ drop (p + length xs) ys"

definition append_go :: "(nat \<Rightarrow> nat \<Rightarrow> nat) \<Rightarrow> heap \<Rightarrow> slice \<Rightarrow> addr list \<Rightarrow> slice \<times> heap" where
  "append_go slack h s xs =
     (if Len s + length xs \<le> Cap s then
        (s\<lparr>Len := Len s + length xs\<rparr>,
         h\<lparr>Arrays := (Arrays h)[Arr s := splice (array h (Arr s)) (Off s + Len s) xs]\<rparr>)
      else
        (let c = slack (Cap s) (Len s + length xs) in
         (\<lparr>Arr = length (Arrays h), Off = 0, Len = Len s + length xs,
           Cap = Len s + length xs + c\<rparr>,
          h\<lparr>Arrays := Arrays h @ [elems h s @ xs @ replicate c 0]\<rparr>)))"

text \<open>
  \<^verbatim>\<open>slices.Insert(s, i, v)\<close> with one value, for \<open>i \<le> len(s)\<close> (the package calls it
  after checking \<open>i < len(s)\<close>): at the end it is \<^verbatim>\<open>append\<close>; when the capacity has room
  for one more element it shifts the elements from \<open>i\<close> on by one cell, in place, and
  writes \<open>v\<close> at \<open>i\<close>; otherwise it builds the result in a new array.
\<close>

definition slices_Insert ::
  "(nat \<Rightarrow> nat \<Rightarrow> nat) \<Rightarrow> heap \<Rightarrow> slice \<Rightarrow> nat \<Rightarrow> addr \<Rightarrow> slice \<times> heap" where
  "slices_Insert slack h s i v =
     (if i = Len s then append_go slack h s [v]
      else if Len s + 1 \<le> Cap s then
        (s\<lparr>Len := Len s + 1\<rparr>,
         h\<lparr>Arrays := (Arrays h)[Arr s :=
              splice (array h (Arr s)) (Off s + i) (v # drop i (elems h s))]\<rparr>)
      else
        (let c = slack (Cap s) (Len s + 1) in
         (\<lparr>Arr = length (Arrays h), Off = 0, Len = Len s + 1, Cap = Len s + 1 + c\<rparr>,
          h\<lparr>Arrays := Arrays h @
               [take i (elems h s) @ v # drop i (elems h s) @ replicate c 0]\<rparr>)))"

text \<open>
  The two assignments of the package to a content field:
  \<^verbatim>\<open>x.Content = append(x.Content, xs...)\<close> and
  \<^verbatim>\<open>x.Content = slices.Insert(x.Content, i, v)\<close>, for the node at an allocated address.
\<close>

definition append_Content :: "(nat \<Rightarrow> nat \<Rightarrow> nat) \<Rightarrow> heap \<Rightarrow> addr \<Rightarrow> addr list \<Rightarrow> heap" where
  "append_Content slack h a xs =
     (case append_go slack h (Content (Nodes h ! a)) xs of (s, h1) \<Rightarrow> set_Content h1 a s)"

definition insert_Content :: "(nat \<Rightarrow> nat \<Rightarrow> nat) \<Rightarrow> heap \<Rightarrow> addr \<Rightarrow> nat \<Rightarrow> addr \<Rightarrow> heap" where
  "insert_Content slack h a i v =
     (case slices_Insert slack h (Content (Nodes h ! a)) i v of (s, h1) \<Rightarrow> set_Content h1 a s)"

section \<open>Tokenizer\<close>

definition ValidateJSONPointer :: "string \<Rightarrow> error option" where
  "ValidateJSONPointer jsonPointer =
     (if jsonPointer = [] then None
      else if \<not> HasPrefix jsonPointer ''/'' then Some PointerSyntax
      else None)"

definition jsonPointerToTokens :: "string \<Rightarrow> error + string list" where
  "jsonPointerToTokens jsonPointer =
     (if jsonPointer = [] then Inr []
      else (case ValidateJSONPointer jsonPointer of
              Some err \<Rightarrow> Inl err
            | None \<Rightarrow> Inr (tl (Split jsonPointer))))"

section \<open>Matcher\<close>

text \<open>
  The loop of \<^verbatim>\<open>match\<close> over the pairs of a mapping: it returns the value of the first
  pair whose key has the token as its \<^verbatim>\<open>Value\<close>, or runs to the end. Reading a key
  through nil panics.
\<close>

datatype scan = Found addr | Exhausted | NilKey

fun mapScan :: "heap \<Rightarrow> addr list \<Rightarrow> string \<Rightarrow> scan" where
  "mapScan h (key # val # c) tok =
     (case lookup h key of
        None \<Rightarrow> NilKey
      | Some k \<Rightarrow> if tok = Value k then Found val else mapScan h c tok)"
| "mapScan h c tok = Exhausted"

text \<open>
  \<^verbatim>\<open>filter\<close> returns the nodes the predicate accepts, in order, and a nil error.
\<close>

definition filter_go :: "addr list \<Rightarrow> (addr \<Rightarrow> bool) \<Rightarrow> addr list" where
  "filter_go nodes pred = filter pred nodes"

text \<open>
  Two collaborators of \<^verbatim>\<open>match\<close> are not in yptr.go and are parameters of the model:
  \<open>unm\<close> is \<^verbatim>\<open>yaml.Unmarshal\<close> into a fresh node (\<open>None\<close> when the text does not
  parse, otherwise the pattern, of a type \<open>'p\<close> left open), and \<open>sub\<close> is
  \<^verbatim>\<open>isTreeSubset\<close>, which decides whether a pattern matches the node at an address of
  the store; it is taken to return for every node.

  \<^verbatim>\<open>match\<close> calls itself on the child of a document node; on a store where document
  nodes form a cycle the call does not return, so the result is an option.
  For the token \<^verbatim>\<open>-\<close> on a sequence it allocates the dummy leaf node.
\<close>

partial_function (option) match ::
  "(string \<Rightarrow> 'p option) \<Rightarrow> ('p \<Rightarrow> heap \<Rightarrow> addr \<Rightarrow> bool) \<Rightarrow>
   heap \<Rightarrow> addr \<Rightarrow> string \<Rightarrow> addr list outcome option" where
  "match unm sub h root tok =
     (case lookup h root of
        None \<Rightarrow> Some Panic
      | Some r \<Rightarrow>
          (let c = elems h (Content r) in
           case Kind r of
             MappingNode \<Rightarrow>
               if length c mod 2 \<noteq> 0 then Some (Err (MalformedTree (length c)) h)
               else (case mapScan h c tok of
                       NilKey \<Rightarrow> Some Panic
                     | Found val \<Rightarrow> Some (Ok [val] h)
                     | Exhausted \<Rightarrow> Some (Err (Wrap tok ErrNotFound) h))
           | SequenceNode \<Rightarrow>
               if HasPrefix tok ''~{'' then
                 (case unm (tl tok) of
                    None \<Rightarrow> Some (Err (YamlError (tl tok)) h)
                  | Some mtree \<Rightarrow> Some (Ok (filter_go c (sub mtree h)) h))
               else if tok = ''-'' then
                 Some (Ok [length (Nodes h)] (alloc h [mk_node ScalarNode [] []]))
               else (case Atoi tok of
                       None \<Rightarrow> Some (Err (AtoiError tok) h)
                     | Some i \<Rightarrow>
                         if i < 0 \<or> i \<ge> int (length c) then Some (Err OutOfBounds h)
                         else Some (Ok [c ! nat i] h))
           | DocumentNode \<Rightarrow>
               (case c of [] \<Rightarrow> Some Panic | c0 # cs \<Rightarrow> match unm sub h c0 tok)
           | ScalarNode \<Rightarrow> Some (Err (UnhandledNodeType (Kind r) (Tag r)) h)
           | AliasNode \<Rightarrow> Some (Err (UnhandledNodeType (Kind r) (Tag r)) h)))"

declare match.simps [code]

section \<open>Resolver\<close>

text \<open>
  \<^verbatim>\<open>find\<close> reads \<^verbatim>\<open>toks[0]\<close> first: on an empty token list that is an index out
  of range. \<open>find_each\<close> is its loop over the matches, with the results so far.
\<close>

fun find_go ::
  "(string \<Rightarrow> 'p option) \<Rightarrow> ('p \<Rightarrow> heap \<Rightarrow> addr \<Rightarrow> bool) \<Rightarrow>
   heap \<Rightarrow> addr \<Rightarrow> string list \<Rightarrow> addr list outcome option"
and find_each ::
  "(string \<Rightarrow> 'p option) \<Rightarrow> ('p \<Rightarrow> heap \<Rightarrow> addr \<Rightarrow> bool) \<Rightarrow>
   heap \<Rightarrow> addr list \<Rightarrow> string list \<Rightarrow> addr list \<Rightarrow> addr list outcome option" where
  "find_go unm sub h root [] = Some Panic"
| "find_go unm sub h root (tok # toks) =
     (case match unm sub h root tok of
        None \<Rightarrow> None
      | Some Panic \<Rightarrow> Some Panic
      | Some (Err err h1) \<Rightarrow> Some (Err err h1)
      | Some (Ok next h1) \<Rightarrow>
          if toks = [] then Some (Ok next h1)
          else find_each unm sub h1 next toks [])"
| "find_each unm sub h [] toks res = Some (Ok res h)"
| "find_each unm sub h (n # ns) toks res =
     (case find_go unm sub h n toks of
        None \<Rightarrow> None
      | Some Panic \<Rightarrow> Some Panic
      | Some (Err err h1) \<Rightarrow> Some (Err err h1)
      | Some (Ok f h1) \<Rightarrow> find_each unm sub h1 ns toks (res @ f))"

definition FindAll ::
  "(string \<Rightarrow> 'p option) \<Rightarrow> ('p \<Rightarrow> heap \<Rightarrow> addr \<Rightarrow> bool) \<Rightarrow>
   heap \<Rightarrow> addr \<Rightarrow> string \<Rightarrow> addr list outcome option" where
  "FindAll unm sub h root ptr =
     (if ptr = [] then Some (Err InvalidEmptyPointer h)
      else (case jsonPointerToTokens ptr of
              Inl err \<Rightarrow> Some (Err err h)
            | Inr toks \<Rightarrow>
                (case find_go unm sub h root toks of
                   None \<Rightarrow> None
                 | Some Panic \<Rightarrow> Some Panic
                 | Some (Err err h1) \<Rightarrow> Some (Err (Wrap ptr err) h1)
                 | Some (Ok res h1) \<Rightarrow> Some (Ok res h1))))"


section \<open>Inserter\<close>

text \<open>
  \<^verbatim>\<open>sequenceInsertAt\<close> takes the node by value and stores the address of that
  parameter in the sequence: the element is a fresh copy of \<open>n\<close>, with the same content
  slice and so on the same backing array as \<open>n\<close>.
\<close>

definition sequenceInsertAt ::
  "(nat \<Rightarrow> nat \<Rightarrow> nat) \<Rightarrow> heap \<Rightarrow> addr \<Rightarrow> string \<Rightarrow> node \<Rightarrow> unit outcome" where
  "sequenceInsertAt slack h root tok n =
     (case lookup h root of
        None \<Rightarrow> Panic
      | Some r \<Rightarrow>
          if tok = ''-'' then
            Ok () (append_Content slack (alloc h [n]) root [length (Nodes h)])
          else (case Atoi tok of
                  None \<Rightarrow> Err (AtoiError tok) h
                | Some i \<Rightarrow>
                    if i < 0 \<or> i \<ge> int (length (elems h (Content r))) then Err OutOfBounds h
                    else Ok () (insert_Content slack (alloc h [n]) root (nat i)
                                  (length (Nodes h)))))"

text \<open>
  The three mutually recursive functions. Local variables whose address is taken
  (\<^verbatim>\<open>n\<close>, \<^verbatim>\<open>k\<close>, \<^verbatim>\<open>v\<close>, and the parameter \<^verbatim>\<open>value\<close> in \<^verbatim>\<open>mapInsert\<close>) are
  allocated in the store, in the order of their declaration. In \<^verbatim>\<open>sequenceInsert\<close>
  the new mapping \<^verbatim>\<open>n\<close> is at \<open>length (Nodes h1)\<close>, its key at the next address and its
  value at the one after; \<^verbatim>\<open>sequenceInsertAt\<close> stores a copy of \<^verbatim>\<open>n\<close> in the
  sequence and the recursion continues on \<^verbatim>\<open>&n\<close>, the original. The value to insert
  is a struct: its content is read through its slice when the merge appends it.
\<close>

fun insert_go ::
  "(string \<Rightarrow> 'p option) \<Rightarrow> ('p \<Rightarrow> heap \<Rightarrow> addr \<Rightarrow> bool) \<Rightarrow> (nat \<Rightarrow> nat \<Rightarrow> nat) \<Rightarrow>
   heap \<Rightarrow> addr \<Rightarrow> string list \<Rightarrow> node \<Rightarrow> unit outcome option"
and sequenceInsert ::
  "(string \<Rightarrow> 'p option) \<Rightarrow> ('p \<Rightarrow> heap \<Rightarrow> addr \<Rightarrow> bool) \<Rightarrow> (nat \<Rightarrow> nat \<Rightarrow> nat) \<Rightarrow>
   heap \<Rightarrow> addr \<Rightarrow> string list \<Rightarrow> node \<Rightarrow> unit outcome option"
and mapInsert ::
  "(string \<Rightarrow> 'p option) \<Rightarrow> ('p \<Rightarrow> heap \<Rightarrow> addr \<Rightarrow> bool) \<Rightarrow> (nat \<Rightarrow> nat \<Rightarrow> nat) \<Rightarrow>
   heap \<Rightarrow> addr \<Rightarrow> string list \<Rightarrow> node \<Rightarrow> unit outcome option" where
  "insert_go unm sub slack h root [] val =
     (case lookup h root of
        None \<Rightarrow> Some Panic
      | Some r \<Rightarrow>
          if Kind r = MappingNode \<and> Kind val = MappingNode then
            Some (Ok () (append_Content slack h root (elems h (Content val))))
          else if Kind r = MappingNode \<and> length (elems h (Content r)) = 0 then
            Some (Ok () (set_node h root val))
          else Some (Err (CannotInsert (Kind val) (Tag val) (Kind r) (Tag r)) h))"
| "insert_go unm sub slack h root (tok # toks) val =
     (case lookup h root of
        None \<Rightarrow> Some Panic
      | Some r \<Rightarrow>
          (case Kind r of
             SequenceNode \<Rightarrow> sequenceInsert unm sub slack h root (tok # toks) val
           | MappingNode \<Rightarrow> mapInsert unm sub slack h root (tok # toks) val
           | DocumentNode \<Rightarrow> Some (Err (UnhandledNodeType (Kind r) (Tag r)) h)
           | ScalarNode \<Rightarrow> Some (Err (UnhandledNodeType (Kind r) (Tag r)) h)
           | AliasNode \<Rightarrow> Some (Err (UnhandledNodeType (Kind r) (Tag r)) h)))"
| "sequenceInsert unm sub slack h root [] val = Some Panic"
| "sequenceInsert unm sub slack h root (tok # toks) val =
     (case match unm sub h root tok of
        None \<Rightarrow> None
      | Some Panic \<Rightarrow> Some Panic
      | Some (Err err h1) \<Rightarrow> Some (Err err h1)
      | Some (Ok next h1) \<Rightarrow>
          if toks = [] then Some (sequenceInsertAt slack h1 root tok val)
          else (case next of
                  [] \<Rightarrow> Some Panic
                | n0 # ns \<Rightarrow>
                    (case lookup h1 n0 of
                       None \<Rightarrow> Some Panic
                     | Some nn \<Rightarrow>
                         if Kind nn \<noteq> ScalarNode then insert_go unm sub slack h1 n0 toks val
                         else
                           (let n = length (Nodes h1); k = n + 1; v = n + 2;
                                h2 = alloc h1 [mk_node MappingNode ''!!map'' [],
                                               mk_node ScalarNode ''!!str'' (hd toks),
                                               mk_node MappingNode ''!!map'' []];
                                h3 = append_Content slack h2 n [k, v]
                            in case sequenceInsertAt slack h3 root tok (Nodes h3 ! n) of
                                 Panic \<Rightarrow> Some Panic
                               | Err err h4 \<Rightarrow> Some (Err err h4)
                               | Ok u h4 \<Rightarrow> insert_go unm sub slack h4 n toks val))))"
| "mapInsert unm sub slack h root [] val = Some Panic"
| "mapInsert unm sub slack h root (tok # toks) val =
     (case match unm sub h root tok of
        None \<Rightarrow> None
      | Some Panic \<Rightarrow> Some Panic
      | Some (Err err h1) \<Rightarrow>
          if \<not> is_ErrNotFound err then Some (Err err h1)
          else
            (case lookup h1 root of
               None \<Rightarrow> Some Panic
             | Some r \<Rightarrow>
                 (let k = length (Nodes h1); v = k + 1 in
                  if toks = [] then
                    Some (Ok () (append_Content slack
                                   (alloc h1 [mk_node ScalarNode [] tok, val]) root [k, v]))
                  else
                    insert_go unm sub slack
                      (append_Content slack
                         (alloc h1 [mk_node ScalarNode [] tok, mk_node MappingNode ''!!map'' []])
                         root [k, v])
                      v toks val))
      | Some (Ok next h1) \<Rightarrow>
          (case next of
             [] \<Rightarrow> Some Panic
           | n0 # ns \<Rightarrow> insert_go unm sub slack h1 n0 toks val))"

text \<open>
  \<^verbatim>\<open>Insert\<close> skips one document node on the value and on the root. The value is
  passed as a struct, the root as a pointer.
\<close>

definition Insert ::
  "(string \<Rightarrow> 'p option) \<Rightarrow> ('p \<Rightarrow> heap \<Rightarrow> addr \<Rightarrow> bool) \<Rightarrow> (nat \<Rightarrow> nat \<Rightarrow> nat) \<Rightarrow>
   heap \<Rightarrow> addr \<Rightarrow> string \<Rightarrow> node \<Rightarrow> unit outcome option" where
  "Insert unm sub slack h root ptr val =
     (case jsonPointerToTokens ptr of
        Inl err \<Rightarrow> Some (Err err h)
      | Inr toks \<Rightarrow>
          (case (if Kind val = DocumentNode
                 then (case elems h (Content val) of [] \<Rightarrow> None | c0 # cs \<Rightarrow> lookup h c0)
                 else Some val) of
             None \<Rightarrow> Some Panic
           | Some val1 \<Rightarrow>
               (case lookup h root of
                  None \<Rightarrow> Some Panic
                | Some r \<Rightarrow>
                    if Kind r = DocumentNode then
                      (case elems h (Content r) of
                         [] \<Rightarrow> Some Panic
                       | c0 # cs \<Rightarrow> insert_go unm sub slack h c0 toks val1)
                    else insert_go unm sub slack h root toks val1)))"

section \<open>Resolved paths\<close>

text \<open>
  The definitions of this section are not in yptr.go: they state what the round trip of
  an insertion and a lookup is about.

  \<open>Itoa\<close> writes a natural number in decimal, as \<^verbatim>\<open>strconv.Itoa\<close> does, and
  \<open>join_tokens\<close> puts a \<^verbatim>\<open>/\<close> before each token, the inverse of the tokenizer.
\<close>

definition digit_char :: "nat \<Rightarrow> char" where
  "digit_char d = char_of (of_char CHR ''0'' + d)"

function Itoa :: "nat \<Rightarrow> string" where
  "Itoa n = (if n < 10 then [digit_char n] else Itoa (n div 10) @ [digit_char (n mod 10)])"
  by pat_completeness auto
termination
  by (relation "measure id") auto

declare Itoa.simps [simp del]

definition join_tokens :: "string list \<Rightarrow> string" where
  "join_tokens toks = concat (map ((#) CHR ''/'') toks)"

text \<open>
  \<open>scanned\<close> lists the keys that the loop of \<^verbatim>\<open>match\<close> over a mapping reads, up to
  the key that matches.

  \<open>step_at\<close> says what a successful insertion does at a node with the first of its
  remaining tokens (\<open>final\<close>: it is the last one). It either continues in an existing
  child (\<open>Descend\<close>, with the token that selects the child in a lookup and the keys
  read to find it), or it writes at the node itself (\<open>Stop\<close>, with the token that
  selects what it writes). The index of the element that the token \<^verbatim>\<open>-\<close> appends is
  the length of the sequence; the index for a predicate token is that of the first
  element the predicate accepts, the one \<^verbatim>\<open>sequenceInsert\<close> continues in.
\<close>

fun scanned :: "heap \<Rightarrow> addr list \<Rightarrow> string \<Rightarrow> addr list" where
  "scanned h (key # val # c) tok =
     (case lookup h key of
        None \<Rightarrow> [key]
      | Some k \<Rightarrow> if tok = Value k then [key] else key # scanned h c tok)"
| "scanned h c tok = []"

datatype step = Descend string addr "addr list" | Stop string

definition step_at ::
  "(string \<Rightarrow> 'p option) \<Rightarrow> ('p \<Rightarrow> heap \<Rightarrow> addr \<Rightarrow> bool) \<Rightarrow>
   heap \<Rightarrow> addr \<Rightarrow> string \<Rightarrow> bool \<Rightarrow> step" where
  "step_at unm sub h a tok final =
     (case lookup h a of
        None \<Rightarrow> Stop tok
      | Some r \<Rightarrow>
          (let c = elems h (Content r) in
           case Kind r of
             MappingNode \<Rightarrow>
               (case mapScan h c tok of
                  Found v \<Rightarrow> Descend tok v (scanned h c tok)
                | Exhausted \<Rightarrow> Stop tok
                | NilKey \<Rightarrow> Stop tok)
           | SequenceNode \<Rightarrow>
               if HasPrefix tok ''~{'' then
                 (case unm (tl tok) of
                    None \<Rightarrow> Stop tok
                  | Some p \<Rightarrow>
                      (case filter (sub p h) c of
                         [] \<Rightarrow> Stop tok
                       | x # xs \<Rightarrow>
                           Descend (Itoa (length (takeWhile (\<lambda>x. \<not> sub p h x) c))) x []))
               else if tok = ''-'' then Stop (Itoa (length c))
               else (case Atoi tok of
                       None \<Rightarrow> Stop tok
                     | Some i \<Rightarrow>
                         if i < 0 \<or> i \<ge> int (length c) \<or> final then Stop tok
                         else (case lookup h (c ! nat i) of
                                 None \<Rightarrow> Stop tok
                               | Some cn \<Rightarrow>
                                   if Kind cn \<noteq> ScalarNode then Descend tok (c ! nat i) []
                                   else Stop tok))
           | DocumentNode \<Rightarrow> Stop tok
           | ScalarNode \<Rightarrow> Stop tok
           | AliasNode \<Rightarrow> Stop tok))"

text \<open>
  Along the tokens of a pointer: \<open>resolve\<close> is the resolved path, with an index in
  place of every \<^verbatim>\<open>-\<close> and every predicate token that addresses a sequence;
  \<open>target\<close> is the existing node that the insertion writes to; \<open>reads\<close> are the nodes
  and keys read on the way to it.
\<close>

fun resolve ::
  "(string \<Rightarrow> 'p option) \<Rightarrow> ('p \<Rightarrow> heap \<Rightarrow> addr \<Rightarrow> bool) \<Rightarrow>
   heap \<Rightarrow> addr \<Rightarrow> string list \<Rightarrow> string list" where
  "resolve unm sub h a [] = []"
| "resolve unm sub h a (tok # toks) =
     (case step_at unm sub h a tok (toks = []) of
        Descend tok' c ks \<Rightarrow> tok' # resolve unm sub h c toks
      | Stop tok' \<Rightarrow> tok' # toks)"

fun target ::
  "(string \<Rightarrow> 'p option) \<Rightarrow> ('p \<Rightarrow> heap \<Rightarrow> addr \<Rightarrow> bool) \<Rightarrow>
   heap \<Rightarrow> addr \<Rightarrow> string list \<Rightarrow> addr" where
  "target unm sub h a [] = a"
| "target unm sub h a (tok # toks) =
     (case step_at unm sub h a tok (toks = []) of
        Descend tok' c ks \<Rightarrow> target unm sub h c toks
      | Stop tok' \<Rightarrow> a)"

fun reads ::
  "(string \<Rightarrow> 'p option) \<Rightarrow> ('p \<Rightarrow> heap \<Rightarrow> addr \<Rightarrow> bool) \<Rightarrow>
   heap \<Rightarrow> addr \<Rightarrow> string list \<Rightarrow> addr list" where
  "reads unm sub h a [] = []"
| "reads unm sub h a (tok # toks) =
     (case step_at unm sub h a tok (toks = []) of
        Descend tok' c ks \<Rightarrow> a # ks @ reads unm sub h c toks
      | Stop tok' \<Rightarrow> [])"

text \<open>
  An insertion merges a mapping value into a mapping in two situations: the pointer
  leads to an existing mapping node, or the pointer leaves the document at a sequence
  with exactly one more token after the one for the sequence, so that the value meets
  the empty mapping that \<^verbatim>\<open>sequenceInsert\<close> has just made for that token. \<open>merged\<close> is
  the mapping the value is merged into, as it is before the insertion; it is \<open>None\<close>
  when the value is stored as a node of its own.
\<close>

fun merged ::
  "(string \<Rightarrow> 'p option) \<Rightarrow> ('p \<Rightarrow> heap \<Rightarrow> addr \<Rightarrow> bool) \<Rightarrow>
   heap \<Rightarrow> addr \<Rightarrow> string list \<Rightarrow> node \<Rightarrow> node option" where
  "merged unm sub h a [] val =
     (case lookup h a of
        None \<Rightarrow> None
      | Some r \<Rightarrow> if Kind r = MappingNode \<and> Kind val = MappingNode then Some r else None)"
| "merged unm sub h a (tok # toks) val =
     (case step_at unm sub h a tok (toks = []) of
        Descend tok' c ks \<Rightarrow> merged unm sub h c toks val
      | Stop tok' \<Rightarrow>
          (case lookup h a of
             None \<Rightarrow> None
           | Some r \<Rightarrow>
               if Kind r = SequenceNode \<and> length toks = 1 \<and> Kind val = MappingNode
               then Some (mk_node MappingNode ''!!map'' [])
               else None))"

text \<open>
  What a lookup finds where a value was inserted, in the store \<open>h'\<close> after the
  insertion: the value itself; or, when the value was merged into the mapping \<open>r\<close>,
  that mapping with a new content, which is the content \<open>r\<close> had before the insertion
  followed by the content of the value.
\<close>

definition landed :: "heap \<Rightarrow> heap \<Rightarrow> node option \<Rightarrow> node \<Rightarrow> node \<Rightarrow> bool" where
  "landed h h' m val n =
     (case m of
        None \<Rightarrow> n = val
      | Some r \<Rightarrow>
          n = r\<lparr>Content := Content n\<rparr> \<and>
          elems h' (Content n) = elems h (Content r) @ elems h (Content val))"

text \<open>
  \<^verbatim>\<open>Insert\<close> skips a document node of the root and of the value: \<open>skip_document\<close> is
  the node where the insertion starts, \<open>inserted_value\<close> the value it inserts, and
  \<open>resolved_pointer\<close> the resolved path as a pointer string.
\<close>

definition skip_document :: "heap \<Rightarrow> addr \<Rightarrow> addr" where
  "skip_document h root =
     (case lookup h root of
        None \<Rightarrow> root
      | Some r \<Rightarrow>
          if Kind r = DocumentNode
          then (case elems h (Content r) of [] \<Rightarrow> root | c0 # cs \<Rightarrow> c0)
          else root)"


definition resolved_pointer ::
  "(string \<Rightarrow> 'p option) \<Rightarrow> ('p \<Rightarrow> heap \<Rightarrow> addr \<Rightarrow> bool) \<Rightarrow>
   heap \<Rightarrow> addr \<Rightarrow> string \<Rightarrow> string" where
  "resolved_pointer unm sub h root ptr =
     (case jsonPointerToTokens ptr of
        Inl err \<Rightarrow> ptr
      | Inr toks \<Rightarrow> join_tokens (resolve unm sub h (skip_document h root) toks))"

text \<open>
  The children of a node, and the parent-child relation of a store. A list \<open>ns\<close> of
  addresses is a document with root \<open>root\<close> that is a tree when it has the root and,
  with a node, its children (so it has every node that can be reached from the root),
  no address occurs twice among the children of its nodes, and the root is nobody's
  child. Only these nodes are constrained: the store may hold any other nodes.

  \<open>own_arrays\<close>: no two nodes of \<open>ns\<close> have their content on the same backing array
  (a slice of capacity zero has no array). \<open>wf_nodes\<close>: the content slice of every node
  of \<open>ns\<close> lies within its array.
\<close>

definition kids :: "heap \<Rightarrow> addr \<Rightarrow> addr list" where
  "kids h a = (case lookup h a of None \<Rightarrow> [] | Some r \<Rightarrow> elems h (Content r))"

definition children :: "heap \<Rightarrow> (addr \<times> addr) set" where
  "children h = {(p, x). x \<in> set (kids h p)}"

definition is_tree :: "heap \<Rightarrow> addr \<Rightarrow> addr list \<Rightarrow> bool" where
  "is_tree h root ns \<longleftrightarrow>
     root \<in> set ns \<and> (\<forall>a \<in> set ns. set (kids h a) \<subseteq> set ns) \<and>
     distinct (concat (map (kids h) ns)) \<and> root \<notin> set (concat (map (kids h) ns))"

definition slices_of :: "heap \<Rightarrow> addr list \<Rightarrow> slice list" where
  "slices_of h ns =
     concat (map (\<lambda>a. case lookup h a of None \<Rightarrow> [] | Some r \<Rightarrow> [Content r]) ns)"

definition own_arrays :: "heap \<Rightarrow> addr list \<Rightarrow> bool" where
  "own_arrays h ns \<longleftrightarrow> distinct (map Arr (filter (\<lambda>s. 0 < Cap s) (slices_of h ns)))"

definition wf_nodes :: "heap \<Rightarrow> addr list \<Rightarrow> bool" where
  "wf_nodes h ns \<longleftrightarrow> (\<forall>s \<in> set (slices_of h ns). wf_slice h s)"

text \<open>
  \<open>apart\<close>: a value that is a mapping shares its backing array with no sequence node
  of \<open>ns\<close>.
\<close>

definition apart :: "heap \<Rightarrow> addr list \<Rightarrow> node \<Rightarrow> bool" where
  "apart h ns val \<longleftrightarrow>
     (Kind val = MappingNode \<and> 0 < Cap (Content val) \<longrightarrow>
      (\<forall>a \<in> set ns. case lookup h a of
                       None \<Rightarrow> True
                     | Some r \<Rightarrow> Kind r = SequenceNode \<and> 0 < Cap (Content r) \<longrightarrow>
                                 Arr (Content r) \<noteq> Arr (Content val)))"

section \<open>Example documents\<close>

text \<open>
  The concrete examples need values for the parameters. \<open>unmarshal_ex\<close> records
  what \<^verbatim>\<open>yaml.Unmarshal\<close> does on the two texts the examples use: it parses
  \<^verbatim>\<open>{}\<close> (an empty flow mapping) and rejects \<^verbatim>\<open>{]\<close>; no example applies it to
  another text. \<open>isTreeSubset_ex\<close> is the subset predicate for the empty mapping
  pattern: it holds of mapping nodes only. \<open>slack_ex\<close> doubles the capacity when that
  is enough, as the Go runtime does for small slices.
\<close>

definition unmarshal_ex :: "string \<Rightarrow> unit option" where
  "unmarshal_ex s = (if s = ''{}'' then Some () else None)"

definition isTreeSubset_ex :: "unit \<Rightarrow> heap \<Rightarrow> addr \<Rightarrow> bool" where
  "isTreeSubset_ex p h a = (case lookup h a of None \<Rightarrow> False | Some n \<Rightarrow> Kind n = MappingNode)"

definition slack_ex :: "nat \<Rightarrow> nat \<Rightarrow> nat" where
  "slack_ex c n = (if n \<le> 2 * c then 2 * c - n else 0)"

text \<open>
  \<open>node_on k t v a n c\<close> is a node whose content is the first \<open>n\<close> cells of the array
  \<open>a\<close>, with capacity \<open>c\<close>.
\<close>

definition node_on :: "kind \<Rightarrow> string \<Rightarrow> string \<Rightarrow> nat \<Rightarrow> nat \<Rightarrow> nat \<Rightarrow> node" where
  "node_on k t v a n c = (mk_node k t v)\<lparr>Content := \<lparr>Arr = a, Off = 0, Len = n, Cap = c\<rparr>\<rparr>"

text \<open>
  The document of \<^verbatim>\<open>TestInsertErrors\<close>, \<^verbatim>\<open>a: {b: {c: 42}}, d: [e, f]\<close>, with its
  document node at address 0; the mapping \<^verbatim>\<open>{b: ...}\<close> is at 3, \<^verbatim>\<open>{c: 42}\<close> at 5 and
  the sequence \<^verbatim>\<open>d\<close> at 9. Every content fills its array.
\<close>

definition doc_ex :: heap where
  "doc_ex = \<lparr>Nodes = [
     node_on DocumentNode [] [] 0 1 1,
     node_on MappingNode ''!!map'' [] 1 4 4,
     mk_node ScalarNode ''!!str'' ''a'',
     node_on MappingNode ''!!map'' [] 2 2 2,
     mk_node ScalarNode ''!!str'' ''b'',
     node_on MappingNode ''!!map'' [] 3 2 2,
     mk_node ScalarNode ''!!str'' ''c'',
     mk_node ScalarNode ''!!int'' ''42'',
     mk_node ScalarNode ''!!str'' ''d'',
     node_on SequenceNode ''!!seq'' [] 4 2 2,
     mk_node ScalarNode ''!!str'' ''e'',
     mk_node ScalarNode ''!!str'' ''f''],
   Arrays = [[1], [2, 3, 8, 9], [4, 5], [6, 7], [10, 11]]\<rparr>"

text \<open>
  The sequence \<^verbatim>\<open>[{name: app}, s]\<close> at address 0, on an array with room for four
  elements, and the scalar \<^verbatim>\<open>x\<close>.
\<close>

definition seq_ex :: heap where
  "seq_ex = \<lparr>Nodes = [
     node_on SequenceNode ''!!seq'' [] 0 2 4,
     node_on MappingNode ''!!map'' [] 1 2 2,
     mk_node ScalarNode ''!!str'' ''s'',
     mk_node ScalarNode ''!!str'' ''name'',
     mk_node ScalarNode ''!!str'' ''app''],
   Arrays = [[1, 2, 0, 0], [3, 4]]\<rparr>"

definition x_ex :: node where
  "x_ex = mk_node ScalarNode ''!!str'' ''x''"

text \<open>
  The document of \<^verbatim>\<open>TestInsertErrors\<close> with the nodes of the mapping value
  \<^verbatim>\<open>{q: xyz}\<close> allocated after it, and that value; a sequence that is its own first
  element; and a mapping \<^verbatim>\<open>{p: {}}\<close> whose empty child has its content on the array of
  its parent.
\<close>

definition doc_m_ex :: heap where
  "doc_m_ex = \<lparr>Nodes = Nodes doc_ex @ [mk_node ScalarNode ''!!str'' ''q'',
                                     mk_node ScalarNode ''!!str'' ''xyz''],
              Arrays = Arrays doc_ex @ [[12, 13]]\<rparr>"

definition m_ex :: node where
  "m_ex = node_on MappingNode ''!!map'' [] 5 2 2"



definition cyc_ex :: heap where
  "cyc_ex = \<lparr>Nodes = [node_on SequenceNode ''!!seq'' [] 0 1 1], Arrays = [[0]]\<rparr>"

text \<open>
  Two mappings on one backing array and two sequences on another, as the two copies of
  a value that was inserted twice are. The first of each pair has had elements
  appended since, the second has not; the value \<^verbatim>\<open>{e: f}\<close> has its own array.
\<close>

definition twin_ex :: heap where
  "twin_ex = \<lparr>Nodes = [
     node_on MappingNode ''!!map'' [] 0 4 4,
     node_on MappingNode ''!!map'' [] 0 2 4,
     mk_node ScalarNode ''!!str'' ''a'',
     mk_node ScalarNode ''!!str'' ''b'',
     mk_node ScalarNode ''!!str'' ''c'',
     mk_node ScalarNode ''!!str'' ''d'',
     mk_node ScalarNode ''!!str'' ''e'',
     mk_node ScalarNode ''!!str'' ''f'',
     node_on SequenceNode ''!!seq'' [] 2 3 4,
     node_on SequenceNode ''!!seq'' [] 2 2 4],
   Arrays = [[2, 3, 4, 5], [6, 7], [2, 3, 4, 0]]\<rparr>"

definition ef_ex :: node where
  "ef_ex = node_on MappingNode ''!!map'' [] 1 2 2"

definition shared_ex :: heap where
  "shared_ex = \<lparr>Nodes = [
     node_on MappingNode ''!!map'' [] 0 2 2,
     mk_node ScalarNode ''!!str'' ''p'',
     node_on MappingNode ''!!map'' [] 0 0 2],
   Arrays = [[1, 2]]\<rparr>"

section \<open>Basic facts\<close>

subsection \<open>Reading and writing the store\<close>

lemma lookup_Some: "lookup h a = Some r \<longleftrightarrow> a < length (Nodes h) \<and> Nodes h ! a = r"
  by (auto simp: lookup_def)

lemma lookup_None: "lookup h a = None \<longleftrightarrow> length (Nodes h) \<le> a"
  by (auto simp: lookup_def)

lemma alloc_simps [simp]:
  "Nodes (alloc h ns) = Nodes h @ ns" "Arrays (alloc h ns) = Arrays h"
  by (simp_all add: alloc_def)

lemma set_node_simps [simp]:
  "Nodes (set_node h a n) = (Nodes h)[a := n]" "Arrays (set_node h a n) = Arrays h"
  by (simp_all add: set_node_def)

lemma set_Content_simps [simp]:
  "Nodes (set_Content h a s) = (Nodes h)[a := (Nodes h ! a)\<lparr>Content := s\<rparr>]"
  "Arrays (set_Content h a s) = Arrays h"
  by (simp_all add: set_Content_def)

lemma elems_Arrays: "Arrays h' = Arrays h \<Longrightarrow> elems h' s = elems h s"
  by (simp add: elems_def array_def)

lemma wf_slice_Arrays: "Arrays h' = Arrays h \<Longrightarrow> wf_slice h' s = wf_slice h s"
  by (simp add: wf_slice_def)

lemma elems_simps [simp]:
  "elems (alloc h ns) s = elems h s"
  "elems (set_node h a n) s = elems h s"
  "elems (set_Content h a t) s = elems h s"
  by (rule elems_Arrays, simp)+

lemma wf_slice_simps [simp]:
  "wf_slice (alloc h ns) s = wf_slice h s"
  "wf_slice (set_node h a n) s = wf_slice h s"
  "wf_slice (set_Content h a t) s = wf_slice h s"
  by (rule wf_slice_Arrays, simp)+

lemma elems_nil [simp]: "elems h nil_slice = []"
  by (simp add: elems_def nil_slice_def)

lemma wf_nil [simp]: "wf_slice h nil_slice"
  by (simp add: wf_slice_def nil_slice_def)

lemma length_elems: "wf_slice h s \<Longrightarrow> length (elems h s) = Len s"
  by (cases "Cap s = 0") (auto simp: wf_slice_def elems_def array_def)

lemma wf_slice_kept:
  assumes "wf_slice h s" and "length (Arrays h) \<le> length (Arrays h')"
    and "0 < Cap s \<Longrightarrow> Arrays h' ! Arr s = Arrays h ! Arr s"
  shows "wf_slice h' s" and "elems h' s = elems h s"
proof -
  show "wf_slice h' s" using assms by (auto simp: wf_slice_def)
  show "elems h' s = elems h s"
  proof (cases "Cap s = 0")
    case True
    with assms(1) have "Len s = 0" by (simp add: wf_slice_def)
    then show ?thesis by (simp add: elems_def)
  next
    case False
    with assms show ?thesis by (auto simp: wf_slice_def elems_def array_def)
  qed
qed

lemma splice_nil [simp]: "splice ys p [] = ys"
  by (simp add: splice_def)

lemma take_drop_splice:
  "p = off + n \<Longrightarrow> off + n + length xs \<le> length ys \<Longrightarrow>
   take (n + length xs) (drop off (splice ys p xs)) = take n (drop off ys) @ xs"
  by (simp add: splice_def drop_take)

lemma take_drop_splice_before:
  "off + n \<le> p \<Longrightarrow> p \<le> length ys \<Longrightarrow>
   take n (drop off (splice ys p xs)) = take n (drop off ys)"
proof -
  assume a: "off + n \<le> p" "p \<le> length ys"
  have "take n (drop off (splice ys p xs)) = take n (drop off (take p ys) @ xs @ drop (p + length xs) ys)"
    using a by (simp add: splice_def)
  also have "\<dots> = take n (drop off (take p ys))"
    using a by simp
  also have "\<dots> = take n (drop off ys)"
    using a by (simp add: drop_take min_def)
  finally show ?thesis .
qed

lemma append_go_Nodes [simp]: "Nodes (snd (append_go slack h s xs)) = Nodes h"
  by (simp add: append_go_def Let_def)

lemma append_go_length: "length (Arrays h) \<le> length (Arrays (snd (append_go slack h s xs)))"
  by (simp add: append_go_def Let_def)

lemma append_go_other:
  "k < length (Arrays h) \<Longrightarrow> k \<noteq> Arr s \<or> Cap s = 0 \<Longrightarrow>
   Arrays (snd (append_go slack h s xs)) ! k = Arrays h ! k"
  by (auto simp: append_go_def Let_def nth_append array_def)

lemma append_go_elems:
  assumes "wf_slice h s"
  shows "elems (snd (append_go slack h s xs)) (fst (append_go slack h s xs)) = elems h s @ xs"
proof (cases "Len s + length xs \<le> Cap s")
  case False
  with length_elems [OF assms] show ?thesis
    by (simp add: append_go_def Let_def elems_def array_def)
next
  case True
  show ?thesis
  proof (cases "xs = []")
    case True
    with \<open>Len s + length xs \<le> Cap s\<close> show ?thesis
      by (cases "Arr s < length (Arrays h)") (simp_all add: append_go_def elems_def array_def)
  next
    case False
    with True assms have c: "Arr s < length (Arrays h)"
      "Off s + Len s + length xs \<le> length (Arrays h ! Arr s)"
      by (auto simp: wf_slice_def)
    with True show ?thesis
      by (simp add: append_go_def elems_def array_def take_drop_splice)
  qed
qed


lemma take_all_append: "n = length xs \<Longrightarrow> take n (xs @ ys) = xs"
  by simp

lemma elems_new:
  "n = length xs \<Longrightarrow>
   elems (h\<lparr>Arrays := Arrays h @ [xs @ pad]\<rparr>)
     \<lparr>Arr = length (Arrays h), Off = 0, Len = n, Cap = c\<rparr> = xs"
  by (simp add: elems_def array_def)

lemma slices_Insert_Nodes [simp]: "Nodes (snd (slices_Insert slack h s i v)) = Nodes h"
  by (simp add: slices_Insert_def Let_def)

lemma slices_Insert_length:
  "length (Arrays h) \<le> length (Arrays (snd (slices_Insert slack h s i v)))"
  by (simp add: slices_Insert_def Let_def append_go_length)

lemma slices_Insert_other:
  "k < length (Arrays h) \<Longrightarrow> k \<noteq> Arr s \<or> Cap s = 0 \<Longrightarrow>
   Arrays (snd (slices_Insert slack h s i v)) ! k = Arrays h ! k"
  by (auto simp: slices_Insert_def Let_def nth_append append_go_other)

lemma slices_Insert_elems:
  assumes "wf_slice h s" and "i \<le> Len s"
  shows "elems (snd (slices_Insert slack h s i v)) (fst (slices_Insert slack h s i v)) =
           take i (elems h s) @ v # drop i (elems h s)"
proof (cases "i = Len s")
  case True
  with append_go_elems [OF assms(1), of slack "[v]"] length_elems [OF assms(1)]
  show ?thesis by (simp add: slices_Insert_def)
next
  case ne: False
  note l = length_elems [OF assms(1)]
  show ?thesis
  proof (cases "Len s + 1 \<le> Cap s")
    case False
    have "length (take i (elems h s) @ v # drop i (elems h s)) = Len s + 1"
      using l assms(2) by simp
    then have "elems (h\<lparr>Arrays := Arrays h @
          [(take i (elems h s) @ v # drop i (elems h s)) @ replicate (slack (Cap s) (Len s + 1)) 0]\<rparr>)
        \<lparr>Arr = length (Arrays h), Off = 0, Len = Len s + 1,
          Cap = Len s + 1 + slack (Cap s) (Len s + 1)\<rparr> =
        take i (elems h s) @ v # drop i (elems h s)"
      by (intro elems_new) simp
    with False ne show ?thesis
      by (simp add: slices_Insert_def Let_def)
  next
    case True
    with assms have c: "Arr s < length (Arrays h)" "Off s + Len s + 1 \<le> length (Arrays h ! Arr s)"
      by (auto simp: wf_slice_def)
    let ?A = "Arrays h ! Arr s"
    let ?E = "take (Len s) (drop (Off s) ?A)"
    have e: "elems h s = ?E" using c by (simp add: elems_def array_def)
    have le: "length ?E = Len s" using c by simp
    have "take (Len s + 1) (drop (Off s) (splice ?A (Off s + i) (v # drop i ?E))) =
          take i ?E @ v # drop i ?E"
    proof -
      let ?X = "take i (drop (Off s) ?A)"
      let ?Y = "v # drop i ?E"
      let ?Z = "drop (Off s + i + length ?Y) ?A"
      have a: "drop (Off s) (splice ?A (Off s + i) ?Y) = (?X @ ?Y) @ ?Z"
        using c assms(2) by (simp add: splice_def drop_take)
      have b: "take i ?E = ?X" using assms(2) by (simp add: min_def)
      have n: "length (?X @ ?Y) = Len s + 1" using c assms(2) by simp
      have "take (Len s + 1) ((?X @ ?Y) @ ?Z) = ?X @ ?Y"
        by (rule take_all_append [OF n [symmetric]])
      then show ?thesis unfolding a b by simp
    qed
    with True ne c e show ?thesis
      by (simp add: slices_Insert_def elems_def array_def)
  qed
qed

subsection \<open>Assignments to a content field\<close>

lemma append_Content_Nodes:
  "length (Nodes (append_Content slack h a xs)) = length (Nodes h)"
  by (simp add: append_Content_def split: prod.splits)
     (metis append_go_Nodes snd_conv)

lemma append_Content_lookup:
  assumes "lookup h a = Some r"
  shows "lookup (append_Content slack h a xs) a =
           Some (r\<lparr>Content := fst (append_go slack h (Content r) xs)\<rparr>)"
    and "b \<noteq> a \<Longrightarrow> lookup (append_Content slack h a xs) b = lookup h b"
proof -
  obtain s h1 where e: "append_go slack h (Content r) xs = (s, h1)" by force
  then have n: "Nodes h1 = Nodes h" using append_go_Nodes [of slack h "Content r" xs] by simp
  from assms have a: "a < length (Nodes h)" "Nodes h ! a = r" by (simp_all add: lookup_Some)
  from e n a show "lookup (append_Content slack h a xs) a =
           Some (r\<lparr>Content := fst (append_go slack h (Content r) xs)\<rparr>)"
    by (simp add: append_Content_def lookup_def)
  from e n a show "b \<noteq> a \<Longrightarrow> lookup (append_Content slack h a xs) b = lookup h b"
    by (simp add: append_Content_def lookup_def)
qed

lemma append_Content_elems:
  assumes "lookup h a = Some r"
  shows "elems (append_Content slack h a xs) s = elems (snd (append_go slack h (Content r) xs)) s"
proof -
  obtain s' h1 where e: "append_go slack h (Content r) xs = (s', h1)" by force
  from assms have a: "Nodes h ! a = r" by (simp add: lookup_Some)
  from e a show ?thesis by (simp add: append_Content_def)
qed

lemma append_Content_Arrays:
  assumes "lookup h a = Some r"
  shows "Arrays (append_Content slack h a xs) = Arrays (snd (append_go slack h (Content r) xs))"
proof -
  obtain s' h1 where e: "append_go slack h (Content r) xs = (s', h1)" by force
  from assms have a: "Nodes h ! a = r" by (simp add: lookup_Some)
  from e a show ?thesis by (simp add: append_Content_def)
qed

text \<open>
  What \<^verbatim>\<open>x.Content = append(x.Content, xs...)\<close> does: the node has a new content
  slice, which reads as the old elements followed by the new ones; no other node
  changes; no array is removed, and the only array that can change is the one of the
  node.
\<close>

lemma append_Content_props:
  assumes "lookup h a = Some r" and "wf_slice h (Content r)"
  shows "\<exists>s. lookup (append_Content slack h a xs) a = Some (r\<lparr>Content := s\<rparr>) \<and>
             elems (append_Content slack h a xs) s = elems h (Content r) @ xs"
    and "length (Nodes (append_Content slack h a xs)) = length (Nodes h)"
    and "\<And>b. b \<noteq> a \<Longrightarrow> lookup (append_Content slack h a xs) b = lookup h b"
    and "length (Arrays h) \<le> length (Arrays (append_Content slack h a xs))"
    and "\<And>k. k < length (Arrays h) \<Longrightarrow> k \<noteq> Arr (Content r) \<or> Cap (Content r) = 0 \<Longrightarrow>
           Arrays (append_Content slack h a xs) ! k = Arrays h ! k"
proof -
  show "\<exists>s. lookup (append_Content slack h a xs) a = Some (r\<lparr>Content := s\<rparr>) \<and>
             elems (append_Content slack h a xs) s = elems h (Content r) @ xs"
    using append_Content_lookup(1) [OF assms(1)] append_go_elems [OF assms(2)]
      append_Content_elems [OF assms(1)] by metis
  show "length (Nodes (append_Content slack h a xs)) = length (Nodes h)"
    by (rule append_Content_Nodes)
  show "\<And>b. b \<noteq> a \<Longrightarrow> lookup (append_Content slack h a xs) b = lookup h b"
    by (rule append_Content_lookup(2) [OF assms(1)])
  show "length (Arrays h) \<le> length (Arrays (append_Content slack h a xs))"
    unfolding append_Content_Arrays [OF assms(1)] by (rule append_go_length)
  show "\<And>k. k < length (Arrays h) \<Longrightarrow> k \<noteq> Arr (Content r) \<or> Cap (Content r) = 0 \<Longrightarrow>
           Arrays (append_Content slack h a xs) ! k = Arrays h ! k"
    unfolding append_Content_Arrays [OF assms(1)] by (rule append_go_other)
qed

lemma insert_Content_lookup:
  assumes "lookup h a = Some r"
  shows "lookup (insert_Content slack h a i v) a =
           Some (r\<lparr>Content := fst (slices_Insert slack h (Content r) i v)\<rparr>)"
    and "b \<noteq> a \<Longrightarrow> lookup (insert_Content slack h a i v) b = lookup h b"
    and "length (Nodes (insert_Content slack h a i v)) = length (Nodes h)"
    and "Arrays (insert_Content slack h a i v) = Arrays (snd (slices_Insert slack h (Content r) i v))"
    and "elems (insert_Content slack h a i v) s = elems (snd (slices_Insert slack h (Content r) i v)) s"
proof -
  obtain s' h1 where e: "slices_Insert slack h (Content r) i v = (s', h1)" by force
  then have n: "Nodes h1 = Nodes h" using slices_Insert_Nodes [of slack h "Content r" i v] by simp
  from assms have a: "a < length (Nodes h)" "Nodes h ! a = r" by (simp_all add: lookup_Some)
  from e n a show "lookup (insert_Content slack h a i v) a =
           Some (r\<lparr>Content := fst (slices_Insert slack h (Content r) i v)\<rparr>)"
    by (simp add: insert_Content_def lookup_def)
  from e n a show "b \<noteq> a \<Longrightarrow> lookup (insert_Content slack h a i v) b = lookup h b"
    by (simp add: insert_Content_def lookup_def)
  from e n a show "length (Nodes (insert_Content slack h a i v)) = length (Nodes h)"
    by (simp add: insert_Content_def)
  from e a show "Arrays (insert_Content slack h a i v) = Arrays (snd (slices_Insert slack h (Content r) i v))"
    by (simp add: insert_Content_def)
  from e a show "elems (insert_Content slack h a i v) s = elems (snd (slices_Insert slack h (Content r) i v)) s"
    by (simp add: insert_Content_def)
qed

text \<open>
  What \<^verbatim>\<open>x.Content = slices.Insert(x.Content, i, v)\<close> does, in the same terms.
\<close>

lemma insert_Content_props:
  assumes "lookup h a = Some r" and "wf_slice h (Content r)" and "i \<le> Len (Content r)"
  shows "\<exists>s. lookup (insert_Content slack h a i v) a = Some (r\<lparr>Content := s\<rparr>) \<and>
             elems (insert_Content slack h a i v) s =
               take i (elems h (Content r)) @ v # drop i (elems h (Content r))"
    and "length (Nodes (insert_Content slack h a i v)) = length (Nodes h)"
    and "\<And>b. b \<noteq> a \<Longrightarrow> lookup (insert_Content slack h a i v) b = lookup h b"
    and "length (Arrays h) \<le> length (Arrays (insert_Content slack h a i v))"
    and "\<And>k. k < length (Arrays h) \<Longrightarrow> k \<noteq> Arr (Content r) \<or> Cap (Content r) = 0 \<Longrightarrow>
           Arrays (insert_Content slack h a i v) ! k = Arrays h ! k"
proof -
  show "\<exists>s. lookup (insert_Content slack h a i v) a = Some (r\<lparr>Content := s\<rparr>) \<and>
             elems (insert_Content slack h a i v) s =
               take i (elems h (Content r)) @ v # drop i (elems h (Content r))"
    using insert_Content_lookup(1) [OF assms(1)] slices_Insert_elems [OF assms(2,3)]
      insert_Content_lookup(5) [OF assms(1)] by metis
  show "length (Nodes (insert_Content slack h a i v)) = length (Nodes h)"
    by (rule insert_Content_lookup(3) [OF assms(1)])
  show "\<And>b. b \<noteq> a \<Longrightarrow> lookup (insert_Content slack h a i v) b = lookup h b"
    by (rule insert_Content_lookup(2) [OF assms(1)])
  show "length (Arrays h) \<le> length (Arrays (insert_Content slack h a i v))"
    unfolding insert_Content_lookup(4) [OF assms(1)] by (rule slices_Insert_length)
  show "\<And>k. k < length (Arrays h) \<Longrightarrow> k \<noteq> Arr (Content r) \<or> Cap (Content r) = 0 \<Longrightarrow>
           Arrays (insert_Content slack h a i v) ! k = Arrays h ! k"
    unfolding insert_Content_lookup(4) [OF assms(1)] by (rule slices_Insert_other)
qed

subsection \<open>Allocation and lookup\<close>

lemma lookup_alloc: "a < length (Nodes h) \<Longrightarrow> lookup (alloc h ns) a = lookup h a"
  by (simp add: lookup_def nth_append)

lemma lookup_alloc_Some: "lookup h a = Some r \<Longrightarrow> lookup (alloc h ns) a = Some r"
  by (simp add: lookup_def nth_append split: if_splits)

lemma lookup_alloc_new:
  "i < length ns \<Longrightarrow> lookup (alloc h ns) (length (Nodes h) + i) = Some (ns ! i)"
  by (simp add: lookup_def nth_append)

lemma lookup_alloc_new0: "lookup (alloc h (n # ns)) (length (Nodes h)) = Some n"
  using lookup_alloc_new [of 0 "n # ns" h] by simp

lemma lookup_set_node:
  "lookup (set_node h a n) b = (if b = a \<and> a < length (Nodes h) then Some n else lookup h b)"
  by (auto simp: lookup_def)

subsection \<open>The matcher, by kind of node\<close>

lemmas ex_defs = unmarshal_ex_def isTreeSubset_ex_def slack_ex_def doc_ex_def seq_ex_def x_ex_def
  mk_node_def node_on_def nil_slice_def lookup_def elems_def array_def
  jsonPointerToTokens_def ValidateJSONPointer_def HasPrefix_def Atoi_def is_digit_def digit_val_def
  filter_go_def Let_def alloc_def set_node_def set_Content_def append_Content_def
  insert_Content_def append_go_def slices_Insert_def splice_def sequenceInsertAt_def

lemma match_Mapping:
  "lookup h root = Some r \<Longrightarrow> Kind r = MappingNode \<Longrightarrow>
   match unm sub h root tok =
     (if length (elems h (Content r)) mod 2 \<noteq> 0
      then Some (Err (MalformedTree (length (elems h (Content r)))) h)
      else (case mapScan h (elems h (Content r)) tok of
              NilKey \<Rightarrow> Some Panic
            | Found val \<Rightarrow> Some (Ok [val] h)
            | Exhausted \<Rightarrow> Some (Err (Wrap tok ErrNotFound) h)))"
  by (subst match.simps) (simp add: Let_def)

lemma match_Sequence:
  "lookup h root = Some r \<Longrightarrow> Kind r = SequenceNode \<Longrightarrow>
   match unm sub h root tok =
     (if HasPrefix tok ''~{'' then
        (case unm (tl tok) of
           None \<Rightarrow> Some (Err (YamlError (tl tok)) h)
         | Some mtree \<Rightarrow> Some (Ok (filter_go (elems h (Content r)) (sub mtree h)) h))
      else if tok = ''-'' then
        Some (Ok [length (Nodes h)] (alloc h [mk_node ScalarNode [] []]))
      else (case Atoi tok of
              None \<Rightarrow> Some (Err (AtoiError tok) h)
            | Some i \<Rightarrow>
                if i < 0 \<or> i \<ge> int (length (elems h (Content r))) then Some (Err OutOfBounds h)
                else Some (Ok [elems h (Content r) ! nat i] h)))"
  by (subst match.simps) (simp add: Let_def)

lemma match_Document:
  "lookup h root = Some r \<Longrightarrow> Kind r = DocumentNode \<Longrightarrow>
   match unm sub h root tok =
     (case elems h (Content r) of [] \<Rightarrow> Some Panic | c0 # cs \<Rightarrow> match unm sub h c0 tok)"
  by (subst match.simps) (simp add: Let_def)

lemma match_other:
  "lookup h root = Some r \<Longrightarrow> Kind r = ScalarNode \<or> Kind r = AliasNode \<Longrightarrow>
   match unm sub h root tok = Some (Err (UnhandledNodeType (Kind r) (Tag r)) h)"
  by (subst match.simps) (auto simp: Let_def)

lemma match_nil: "lookup h root = None \<Longrightarrow> match unm sub h root tok = Some Panic"
  by (subst match.simps) simp

lemma Atoi_dash: "Atoi ''-'' = None"
  by (simp add: Atoi_def)

lemma Atoi_predicate: "HasPrefix tok ''~{'' \<Longrightarrow> Atoi tok = None"
  by (cases tok) (auto simp: HasPrefix_def Atoi_def is_digit_def)

section \<open>The terminal case of insertion\<close>

text \<open>
  Claim C2. When insertion reaches the terminal case (no tokens remaining): if the
  target is a mapping and the value is a mapping, the content of the value is appended
  to the content of the target, in order and with nothing removed, so duplicate keys
  stay; if the target is a mapping with empty content and the value is not a mapping,
  the target node is replaced by the value; in every other combination of kinds the
  result is the CannotInsert error that names the kind and tag of both nodes, and the
  store is as it was.

  The appended elements are written through the slice of the target. The theorem also
  says what else the two successful cases leave as it was: every other node record and
  every backing array other than the one of the target. It does not say that the
  elements of the other nodes stay: a node whose content is on the array of the target
  sees what the merge writes there.
\<close>

theorem insert_terminal:
  assumes "lookup h root = Some r" and "wf_slice h (Content r)"
  shows "(Kind r = MappingNode \<and> Kind val = MappingNode \<longrightarrow>
            (\<exists>h' s. insert_go unm sub slack h root [] val = Some (Ok () h') \<and>
                  lookup h' root = Some (r\<lparr>Content := s\<rparr>) \<and>
                  elems h' s = elems h (Content r) @ elems h (Content val) \<and>
                  length (Nodes h') = length (Nodes h) \<and>
                  (\<forall>a. a \<noteq> root \<longrightarrow> lookup h' a = lookup h a) \<and>
                  (\<forall>k < length (Arrays h). k \<noteq> Arr (Content r) \<longrightarrow>
                     Arrays h' ! k = Arrays h ! k)))
       \<and> (Kind r = MappingNode \<and> Kind val \<noteq> MappingNode \<and> elems h (Content r) = [] \<longrightarrow>
            (\<exists>h'. insert_go unm sub slack h root [] val = Some (Ok () h') \<and>
                  lookup h' root = Some val \<and>
                  length (Nodes h') = length (Nodes h) \<and>
                  (\<forall>a. a \<noteq> root \<longrightarrow> lookup h' a = lookup h a) \<and>
                  Arrays h' = Arrays h))
       \<and> (\<not> (Kind r = MappingNode \<and> (Kind val = MappingNode \<or> elems h (Content r) = [])) \<longrightarrow>
            insert_go unm sub slack h root [] val =
              Some (Err (CannotInsert (Kind val) (Tag val) (Kind r) (Tag r)) h))"
proof -
  note p = append_Content_props [OF assms, where slack = slack and xs = "elems h (Content val)"]
  have A: "Kind r = MappingNode \<and> Kind val = MappingNode \<longrightarrow>
            (\<exists>h' s. insert_go unm sub slack h root [] val = Some (Ok () h') \<and>
                  lookup h' root = Some (r\<lparr>Content := s\<rparr>) \<and>
                  elems h' s = elems h (Content r) @ elems h (Content val) \<and>
                  length (Nodes h') = length (Nodes h) \<and>
                  (\<forall>a. a \<noteq> root \<longrightarrow> lookup h' a = lookup h a) \<and>
                  (\<forall>k < length (Arrays h). k \<noteq> Arr (Content r) \<longrightarrow>
                     Arrays h' ! k = Arrays h ! k))"
  proof
    assume k: "Kind r = MappingNode \<and> Kind val = MappingNode"
    let ?h' = "append_Content slack h root (elems h (Content val))"
    from p(1) obtain s where s: "lookup ?h' root = Some (r\<lparr>Content := s\<rparr>)"
      "elems ?h' s = elems h (Content r) @ elems h (Content val)" by blast
    have "insert_go unm sub slack h root [] val = Some (Ok () ?h')"
      using assms(1) k by simp
    with s p(2,3,5) show "\<exists>h' s. insert_go unm sub slack h root [] val = Some (Ok () h') \<and>
                  lookup h' root = Some (r\<lparr>Content := s\<rparr>) \<and>
                  elems h' s = elems h (Content r) @ elems h (Content val) \<and>
                  length (Nodes h') = length (Nodes h) \<and>
                  (\<forall>a. a \<noteq> root \<longrightarrow> lookup h' a = lookup h a) \<and>
                  (\<forall>k < length (Arrays h). k \<noteq> Arr (Content r) \<longrightarrow>
                     Arrays h' ! k = Arrays h ! k)"
      by (intro exI [of _ ?h'] exI [of _ s]) simp
  qed
  have B: "Kind r = MappingNode \<and> Kind val \<noteq> MappingNode \<and> elems h (Content r) = [] \<longrightarrow>
            (\<exists>h'. insert_go unm sub slack h root [] val = Some (Ok () h') \<and>
                  lookup h' root = Some val \<and>
                  length (Nodes h') = length (Nodes h) \<and>
                  (\<forall>a. a \<noteq> root \<longrightarrow> lookup h' a = lookup h a) \<and>
                  Arrays h' = Arrays h)"
  proof
    assume k: "Kind r = MappingNode \<and> Kind val \<noteq> MappingNode \<and> elems h (Content r) = []"
    from assms(1) have rl: "root < length (Nodes h)" by (simp add: lookup_Some)
    have "insert_go unm sub slack h root [] val = Some (Ok () (set_node h root val))"
      using assms(1) k by simp
    moreover have "lookup (set_node h root val) root = Some val"
      using rl by (simp add: lookup_set_node)
    moreover have "\<forall>a. a \<noteq> root \<longrightarrow> lookup (set_node h root val) a = lookup h a"
      by (simp add: lookup_set_node)
    ultimately show "\<exists>h'. insert_go unm sub slack h root [] val = Some (Ok () h') \<and>
                  lookup h' root = Some val \<and>
                  length (Nodes h') = length (Nodes h) \<and>
                  (\<forall>a. a \<noteq> root \<longrightarrow> lookup h' a = lookup h a) \<and>
                  Arrays h' = Arrays h"
      by (intro exI [of _ "set_node h root val"]) simp
  qed
  have C: "\<not> (Kind r = MappingNode \<and> (Kind val = MappingNode \<or> elems h (Content r) = [])) \<longrightarrow>
            insert_go unm sub slack h root [] val =
              Some (Err (CannotInsert (Kind val) (Tag val) (Kind r) (Tag r)) h)"
    using assms(1) by auto
  from A B C show ?thesis by blast
qed


theorem insert_terminal_witness:
  "insert_go unmarshal_ex isTreeSubset_ex slack_ex doc_ex 5 [] (Nodes doc_ex ! 5) =
     Some (Ok () \<lparr>Nodes = (Nodes doc_ex)[5 := node_on MappingNode ''!!map'' [] 5 4 4],
                  Arrays = Arrays doc_ex @ [[6, 7, 6, 7]]\<rparr>) \<and>
   insert_go unmarshal_ex isTreeSubset_ex slack_ex
       \<lparr>Nodes = [mk_node MappingNode ''!!map'' []], Arrays = []\<rparr> 0 [] x_ex =
     Some (Ok () \<lparr>Nodes = [x_ex], Arrays = []\<rparr>) \<and>
   insert_go unmarshal_ex isTreeSubset_ex slack_ex doc_ex 5 [] x_ex =
     Some (Err (CannotInsert ScalarNode ''!!str'' MappingNode ''!!map'') doc_ex) \<and>
   insert_go unmarshal_ex isTreeSubset_ex slack_ex twin_ex 1 [] ef_ex =
     Some (Ok () \<lparr>Nodes = (Nodes twin_ex)[1 := node_on MappingNode ''!!map'' [] 0 4 4],
                  Arrays = [[2, 3, 6, 7], [6, 7], [2, 3, 4, 0]]\<rparr>) \<and>
   elems twin_ex (Content (Nodes twin_ex ! 0)) = [2, 3, 4, 5] \<and>
   elems \<lparr>Nodes = (Nodes twin_ex)[1 := node_on MappingNode ''!!map'' [] 0 4 4],
          Arrays = [[2, 3, 6, 7], [6, 7], [2, 3, 4, 0]]\<rparr> (Content (Nodes twin_ex ! 0)) =
     [2, 3, 6, 7]"
proof -
  let ?e = "\<lparr>Nodes = [mk_node MappingNode ''!!map'' []], Arrays = []\<rparr>"
  have a: "lookup doc_ex 5 = Some (Nodes doc_ex ! 5)" "wf_slice doc_ex (Content (Nodes doc_ex ! 5))"
    by (simp_all add: doc_ex_def lookup_def wf_slice_def node_on_def)
  have b: "lookup ?e 0 = Some (mk_node MappingNode ''!!map'' [])"
    "wf_slice ?e (Content (mk_node MappingNode ''!!map'' []))"
    by (simp_all add: lookup_def mk_node_def)
  have c: "lookup twin_ex 1 = Some (Nodes twin_ex ! 1)" "wf_slice twin_ex (Content (Nodes twin_ex ! 1))"
    by (simp_all add: twin_ex_def lookup_def wf_slice_def node_on_def)
  have 1: "insert_go unmarshal_ex isTreeSubset_ex slack_ex doc_ex 5 [] (Nodes doc_ex ! 5) =
     Some (Ok () \<lparr>Nodes = (Nodes doc_ex)[5 := node_on MappingNode ''!!map'' [] 5 4 4],
                  Arrays = Arrays doc_ex @ [[6, 7, 6, 7]]\<rparr>)"
    using insert_terminal [OF a, where val = "Nodes doc_ex ! 5" and unm = unmarshal_ex
        and sub = isTreeSubset_ex and slack = slack_ex]
    by (simp add: ex_defs)
  have 2: "insert_go unmarshal_ex isTreeSubset_ex slack_ex ?e 0 [] x_ex =
     Some (Ok () \<lparr>Nodes = [x_ex], Arrays = []\<rparr>)"
    using insert_terminal [OF b, where val = x_ex and unm = unmarshal_ex
        and sub = isTreeSubset_ex and slack = slack_ex]
    by (simp add: ex_defs)
  have 3: "insert_go unmarshal_ex isTreeSubset_ex slack_ex doc_ex 5 [] x_ex =
     Some (Err (CannotInsert ScalarNode ''!!str'' MappingNode ''!!map'') doc_ex)"
    using insert_terminal [OF a, where val = x_ex and unm = unmarshal_ex
        and sub = isTreeSubset_ex and slack = slack_ex]
    by (simp add: ex_defs)
  have 4: "insert_go unmarshal_ex isTreeSubset_ex slack_ex twin_ex 1 [] ef_ex =
     Some (Ok () \<lparr>Nodes = (Nodes twin_ex)[1 := node_on MappingNode ''!!map'' [] 0 4 4],
                  Arrays = [[2, 3, 6, 7], [6, 7], [2, 3, 4, 0]]\<rparr>)"
    using insert_terminal [OF c, where val = ef_ex and unm = unmarshal_ex
        and sub = isTreeSubset_ex and slack = slack_ex]
    by (simp add: ex_defs twin_ex_def ef_ex_def)
  have 5: "elems twin_ex (Content (Nodes twin_ex ! 0)) = [2, 3, 4, 5]"
    by (simp add: ex_defs twin_ex_def)
  have 6: "elems \<lparr>Nodes = (Nodes twin_ex)[1 := node_on MappingNode ''!!map'' [] 0 4 4],
          Arrays = [[2, 3, 6, 7], [6, 7], [2, 3, 4, 0]]\<rparr> (Content (Nodes twin_ex ! 0)) =
     [2, 3, 6, 7]"
    by (simp add: ex_defs twin_ex_def)
  from 1 2 3 4 5 6 show ?thesis by simp
qed

section \<open>The last token on a sequence\<close>

text \<open>
  A predicate token is matched before \<^verbatim>\<open>sequenceInsertAt\<close> looks at the token: when
  its text does not parse, the error of the parser is returned, not the one of
  \<^verbatim>\<open>strconv.Atoi\<close>.
\<close>

theorem insert_last_token_predicate_counterexample:
  "Insert unmarshal_ex isTreeSubset_ex slack_ex doc_ex 0 ''/d/~{]'' x_ex =
     Some (Err (YamlError ''{]'') doc_ex)"
  by (simp add: Insert_def ex_defs match.simps)

text \<open>
  Claim C3, amended. When the last token of an insertion addresses a sequence node:
  the token \<^verbatim>\<open>-\<close> appends the value after the last element; a token that
  \<^verbatim>\<open>strconv.Atoi\<close> reads as an index \<open>i\<close> with \<open>0 \<le> i < length\<close> puts the value at
  position \<open>i\<close> and keeps the elements before it and, one place to the right, those
  from \<open>i\<close> on; an index out of range gives the OutOfBounds error and leaves the store
  as it was; a token that is neither \<^verbatim>\<open>-\<close> nor an integer gives the error of
  \<^verbatim>\<open>strconv.Atoi\<close>, except for a predicate token \<^verbatim>\<open>~{...}\<close> whose text does not
  parse, which gives the parser's error.

  The element is a new node, a copy of the value. In the two successful cases every
  other node record that was in the store and every backing array other than the one
  of the sequence are as they were; a node whose content is on the array of the
  sequence sees what the insertion writes there.
\<close>

theorem insert_last_token_sequence:
  assumes "lookup h root = Some r" and "Kind r = SequenceNode" and "wf_slice h (Content r)"
  shows "(tok = ''-'' \<longrightarrow>
           (\<exists>h' a s. insert_go unm sub slack h root [tok] val = Some (Ok () h') \<and>
              length (Nodes h) \<le> a \<and> lookup h' a = Some val \<and>
              lookup h' root = Some (r\<lparr>Content := s\<rparr>) \<and>
              elems h' s = elems h (Content r) @ [a] \<and>
              (\<forall>b < length (Nodes h). b \<noteq> root \<longrightarrow> lookup h' b = lookup h b) \<and>
              (\<forall>k < length (Arrays h). k \<noteq> Arr (Content r) \<longrightarrow>
                 Arrays h' ! k = Arrays h ! k)))
       \<and> (Atoi tok = Some i \<and> 0 \<le> i \<and> i < int (length (elems h (Content r))) \<longrightarrow>
           (\<exists>h' a s. insert_go unm sub slack h root [tok] val = Some (Ok () h') \<and>
              length (Nodes h) \<le> a \<and> lookup h' a = Some val \<and>
              lookup h' root = Some (r\<lparr>Content := s\<rparr>) \<and>
              elems h' s = take (nat i) (elems h (Content r)) @ a # drop (nat i) (elems h (Content r)) \<and>
              (\<forall>b < length (Nodes h). b \<noteq> root \<longrightarrow> lookup h' b = lookup h b) \<and>
              (\<forall>k < length (Arrays h). k \<noteq> Arr (Content r) \<longrightarrow>
                 Arrays h' ! k = Arrays h ! k)))
       \<and> (Atoi tok = Some i \<and> (i < 0 \<or> int (length (elems h (Content r))) \<le> i) \<longrightarrow>
           insert_go unm sub slack h root [tok] val = Some (Err OutOfBounds h))
       \<and> (tok \<noteq> ''-'' \<and> Atoi tok = None \<and> \<not> (HasPrefix tok ''~{'' \<and> unm (tl tok) = None) \<longrightarrow>
           insert_go unm sub slack h root [tok] val = Some (Err (AtoiError tok) h))
       \<and> (HasPrefix tok ''~{'' \<and> unm (tl tok) = None \<longrightarrow>
           insert_go unm sub slack h root [tok] val = Some (Err (YamlError (tl tok)) h))"
proof -
  from assms(1) have rl: "root < length (Nodes h)" and rr: "Nodes h ! root = r"
    by (auto simp: lookup_Some)
  have A: "tok = ''-'' \<longrightarrow>
           (\<exists>h' a s. insert_go unm sub slack h root [tok] val = Some (Ok () h') \<and>
              length (Nodes h) \<le> a \<and> lookup h' a = Some val \<and>
              lookup h' root = Some (r\<lparr>Content := s\<rparr>) \<and>
              elems h' s = elems h (Content r) @ [a] \<and>
              (\<forall>b < length (Nodes h). b \<noteq> root \<longrightarrow> lookup h' b = lookup h b) \<and>
              (\<forall>k < length (Arrays h). k \<noteq> Arr (Content r) \<longrightarrow>
                 Arrays h' ! k = Arrays h ! k))"
  proof
    assume t: "tok = ''-''"
    let ?h1 = "alloc h [mk_node ScalarNode [] []]"
    let ?h2 = "alloc ?h1 [val]"
    let ?a = "length (Nodes ?h1)"
    let ?h' = "append_Content slack ?h2 root [?a]"
    have m: "match unm sub h root tok = Some (Ok [length (Nodes h)] ?h1)"
      using assms t by (simp add: match_Sequence HasPrefix_def)
    have l1: "lookup ?h1 root = Some r"
      by (rule lookup_alloc_Some [OF assms(1)])
    have l2: "lookup ?h2 root = Some r"
      by (rule lookup_alloc_Some [OF l1])
    have w2: "wf_slice ?h2 (Content r)" using assms(3) by simp
    note p = append_Content_props [OF l2 w2, where slack = slack and xs = "[?a]"]
    from p(1) obtain s where s: "lookup ?h' root = Some (r\<lparr>Content := s\<rparr>)"
      "elems ?h' s = elems h (Content r) @ [?a]" by auto
    have i: "insert_go unm sub slack h root [tok] val = Some (Ok () ?h')"
      using assms m l1 t by (simp add: sequenceInsertAt_def)
    have ar: "?a \<noteq> root" using rl by simp
    have la: "lookup ?h' ?a = Some val"
      unfolding p(3) [OF ar] using lookup_alloc_new0 [of ?h1 val "[]"] by simp
    have fr: "\<forall>b < length (Nodes h). b \<noteq> root \<longrightarrow> lookup ?h' b = lookup h b"
      using p(3) by (simp add: lookup_def nth_append)
    have fa: "\<forall>k < length (Arrays h). k \<noteq> Arr (Content r) \<longrightarrow> Arrays ?h' ! k = Arrays h ! k"
      using p(5) by simp
    from i s la fr fa show "\<exists>h' a s. insert_go unm sub slack h root [tok] val = Some (Ok () h') \<and>
              length (Nodes h) \<le> a \<and> lookup h' a = Some val \<and>
              lookup h' root = Some (r\<lparr>Content := s\<rparr>) \<and>
              elems h' s = elems h (Content r) @ [a] \<and>
              (\<forall>b < length (Nodes h). b \<noteq> root \<longrightarrow> lookup h' b = lookup h b) \<and>
              (\<forall>k < length (Arrays h). k \<noteq> Arr (Content r) \<longrightarrow>
                 Arrays h' ! k = Arrays h ! k)"
      by (intro exI [of _ ?h'] exI [of _ ?a] exI [of _ s]) simp
  qed
  have B: "Atoi tok = Some i \<and> 0 \<le> i \<and> i < int (length (elems h (Content r))) \<longrightarrow>
           (\<exists>h' a s. insert_go unm sub slack h root [tok] val = Some (Ok () h') \<and>
              length (Nodes h) \<le> a \<and> lookup h' a = Some val \<and>
              lookup h' root = Some (r\<lparr>Content := s\<rparr>) \<and>
              elems h' s = take (nat i) (elems h (Content r)) @ a # drop (nat i) (elems h (Content r)) \<and>
              (\<forall>b < length (Nodes h). b \<noteq> root \<longrightarrow> lookup h' b = lookup h b) \<and>
              (\<forall>k < length (Arrays h). k \<noteq> Arr (Content r) \<longrightarrow>
                 Arrays h' ! k = Arrays h ! k))"
  proof
    assume a: "Atoi tok = Some i \<and> 0 \<le> i \<and> i < int (length (elems h (Content r)))"
    then have nd: "tok \<noteq> ''-''" and np: "\<not> HasPrefix tok ''~{''"
      using Atoi_dash Atoi_predicate by auto
    let ?h2 = "alloc h [val]"
    let ?a = "length (Nodes h)"
    let ?h' = "insert_Content slack ?h2 root (nat i) ?a"
    have m: "match unm sub h root tok = Some (Ok [elems h (Content r) ! nat i] h)"
      using assms a nd np by (simp add: match_Sequence)
    have l2: "lookup ?h2 root = Some r"
      by (rule lookup_alloc_Some [OF assms(1)])
    have w2: "wf_slice ?h2 (Content r)" using assms(3) by simp
    have il: "nat i \<le> Len (Content r)"
      using a length_elems [OF assms(3)] by linarith
    note p = insert_Content_props [OF l2 w2 il, where slack = slack and v = ?a]
    from p(1) obtain s where s: "lookup ?h' root = Some (r\<lparr>Content := s\<rparr>)"
      "elems ?h' s = take (nat i) (elems h (Content r)) @ ?a # drop (nat i) (elems h (Content r))"
      by auto
    have i: "insert_go unm sub slack h root [tok] val = Some (Ok () ?h')"
      using assms m a nd by (simp add: sequenceInsertAt_def)
    have ar: "?a \<noteq> root" using rl by simp
    have la: "lookup ?h' ?a = Some val"
      unfolding p(3) [OF ar] by (rule lookup_alloc_new0)
    have fr: "\<forall>b < length (Nodes h). b \<noteq> root \<longrightarrow> lookup ?h' b = lookup h b"
      using p(3) by (simp add: lookup_def nth_append)
    have fa: "\<forall>k < length (Arrays h). k \<noteq> Arr (Content r) \<longrightarrow> Arrays ?h' ! k = Arrays h ! k"
      using p(5) by simp
    from i s la fr fa show "\<exists>h' a s. insert_go unm sub slack h root [tok] val = Some (Ok () h') \<and>
              length (Nodes h) \<le> a \<and> lookup h' a = Some val \<and>
              lookup h' root = Some (r\<lparr>Content := s\<rparr>) \<and>
              elems h' s = take (nat i) (elems h (Content r)) @ a # drop (nat i) (elems h (Content r)) \<and>
              (\<forall>b < length (Nodes h). b \<noteq> root \<longrightarrow> lookup h' b = lookup h b) \<and>
              (\<forall>k < length (Arrays h). k \<noteq> Arr (Content r) \<longrightarrow>
                 Arrays h' ! k = Arrays h ! k)"
      by (intro exI [of _ ?h'] exI [of _ ?a] exI [of _ s]) simp
  qed
  have C: "Atoi tok = Some i \<and> (i < 0 \<or> int (length (elems h (Content r))) \<le> i) \<longrightarrow>
           insert_go unm sub slack h root [tok] val = Some (Err OutOfBounds h)"
  proof
    assume a: "Atoi tok = Some i \<and> (i < 0 \<or> int (length (elems h (Content r))) \<le> i)"
    then have nd: "tok \<noteq> ''-''" and np: "\<not> HasPrefix tok ''~{''"
      using Atoi_dash Atoi_predicate by auto
    have "match unm sub h root tok = Some (Err OutOfBounds h)"
      using assms a nd np by (auto simp: match_Sequence)
    then show "insert_go unm sub slack h root [tok] val = Some (Err OutOfBounds h)"
      using assms by simp
  qed
  have D: "tok \<noteq> ''-'' \<and> Atoi tok = None \<and> \<not> (HasPrefix tok ''~{'' \<and> unm (tl tok) = None) \<longrightarrow>
           insert_go unm sub slack h root [tok] val = Some (Err (AtoiError tok) h)"
    using assms by (auto simp: match_Sequence sequenceInsertAt_def)
  have E: "HasPrefix tok ''~{'' \<and> unm (tl tok) = None \<longrightarrow>
           insert_go unm sub slack h root [tok] val = Some (Err (YamlError (tl tok)) h)"
    using assms by (auto simp: match_Sequence)
  from A B C D E show ?thesis by blast
qed


theorem insert_last_token_sequence_witness:
  "insert_go unmarshal_ex isTreeSubset_ex slack_ex seq_ex 0 [''-''] x_ex =
     Some (Ok () \<lparr>Nodes = (Nodes seq_ex)[0 := node_on SequenceNode ''!!seq'' [] 0 3 4] @
                            [mk_node ScalarNode [] [], x_ex],
                  Arrays = [[1, 2, 6, 0], [3, 4]]\<rparr>) \<and>
   insert_go unmarshal_ex isTreeSubset_ex slack_ex seq_ex 0 [''1''] x_ex =
     Some (Ok () \<lparr>Nodes = (Nodes seq_ex)[0 := node_on SequenceNode ''!!seq'' [] 0 3 4] @ [x_ex],
                  Arrays = [[1, 5, 2, 0], [3, 4]]\<rparr>) \<and>
   insert_go unmarshal_ex isTreeSubset_ex slack_ex doc_ex 9 [''0''] x_ex =
     Some (Ok () \<lparr>Nodes = (Nodes doc_ex)[9 := node_on SequenceNode ''!!seq'' [] 5 3 4] @ [x_ex],
                  Arrays = Arrays doc_ex @ [[12, 10, 11, 0]]\<rparr>) \<and>
   insert_go unmarshal_ex isTreeSubset_ex slack_ex seq_ex 0 [''5''] x_ex =
     Some (Err OutOfBounds seq_ex) \<and>
   insert_go unmarshal_ex isTreeSubset_ex slack_ex seq_ex 0 [''f''] x_ex =
     Some (Err (AtoiError ''f'') seq_ex) \<and>
   insert_go unmarshal_ex isTreeSubset_ex slack_ex seq_ex 0 [''~{}''] x_ex =
     Some (Err (AtoiError ''~{}'') seq_ex) \<and>
   insert_go unmarshal_ex isTreeSubset_ex slack_ex seq_ex 0 [''~{]''] x_ex =
     Some (Err (YamlError ''{]'') seq_ex) \<and>
   insert_go unmarshal_ex isTreeSubset_ex slack_ex twin_ex 9 [''-''] x_ex =
     Some (Ok () \<lparr>Nodes = (Nodes twin_ex)[9 := node_on SequenceNode ''!!seq'' [] 2 3 4] @
                            [mk_node ScalarNode [] [], x_ex],
                  Arrays = [[2, 3, 4, 5], [6, 7], [2, 3, 11, 0]]\<rparr>) \<and>
   elems twin_ex (Content (Nodes twin_ex ! 8)) = [2, 3, 4] \<and>
   elems \<lparr>Nodes = (Nodes twin_ex)[9 := node_on SequenceNode ''!!seq'' [] 2 3 4] @
                    [mk_node ScalarNode [] [], x_ex],
          Arrays = [[2, 3, 4, 5], [6, 7], [2, 3, 11, 0]]\<rparr> (Content (Nodes twin_ex ! 8)) =
     [2, 3, 11]"
proof -
  have a: "lookup seq_ex 0 = Some (Nodes seq_ex ! 0)" "Kind (Nodes seq_ex ! 0) = SequenceNode"
    "wf_slice seq_ex (Content (Nodes seq_ex ! 0))"
    by (simp_all add: seq_ex_def mk_node_def node_on_def lookup_def wf_slice_def)
  have b: "lookup doc_ex 9 = Some (Nodes doc_ex ! 9)" "Kind (Nodes doc_ex ! 9) = SequenceNode"
    "wf_slice doc_ex (Content (Nodes doc_ex ! 9))"
    by (simp_all add: doc_ex_def mk_node_def node_on_def lookup_def wf_slice_def)
  have c: "lookup twin_ex 9 = Some (Nodes twin_ex ! 9)" "Kind (Nodes twin_ex ! 9) = SequenceNode"
    "wf_slice twin_ex (Content (Nodes twin_ex ! 9))"
    by (simp_all add: twin_ex_def mk_node_def node_on_def lookup_def wf_slice_def)
  note t = insert_last_token_sequence [OF a, where unm = unmarshal_ex and sub = isTreeSubset_ex
      and slack = slack_ex and val = x_ex]
  have 1: "insert_go unmarshal_ex isTreeSubset_ex slack_ex seq_ex 0 [''-''] x_ex =
     Some (Ok () \<lparr>Nodes = (Nodes seq_ex)[0 := node_on SequenceNode ''!!seq'' [] 0 3 4] @
                            [mk_node ScalarNode [] [], x_ex],
                  Arrays = [[1, 2, 6, 0], [3, 4]]\<rparr>)"
    using t [where tok = "''-''" and i = 0] by (simp add: ex_defs match.simps)
  have 2: "insert_go unmarshal_ex isTreeSubset_ex slack_ex seq_ex 0 [''1''] x_ex =
     Some (Ok () \<lparr>Nodes = (Nodes seq_ex)[0 := node_on SequenceNode ''!!seq'' [] 0 3 4] @ [x_ex],
                  Arrays = [[1, 5, 2, 0], [3, 4]]\<rparr>)"
    using t [where tok = "''1''" and i = 1] by (simp add: ex_defs match.simps)
  have 3: "insert_go unmarshal_ex isTreeSubset_ex slack_ex doc_ex 9 [''0''] x_ex =
     Some (Ok () \<lparr>Nodes = (Nodes doc_ex)[9 := node_on SequenceNode ''!!seq'' [] 5 3 4] @ [x_ex],
                  Arrays = Arrays doc_ex @ [[12, 10, 11, 0]]\<rparr>)"
    using insert_last_token_sequence [OF b, where unm = unmarshal_ex and sub = isTreeSubset_ex
      and slack = slack_ex and val = x_ex and tok = "''0''" and i = 0]
    by (simp add: ex_defs match.simps)
  have 4: "insert_go unmarshal_ex isTreeSubset_ex slack_ex seq_ex 0 [''5''] x_ex =
     Some (Err OutOfBounds seq_ex)"
    using t [where tok = "''5''" and i = 5] by (simp add: ex_defs)
  have 5: "insert_go unmarshal_ex isTreeSubset_ex slack_ex seq_ex 0 [''f''] x_ex =
     Some (Err (AtoiError ''f'') seq_ex)"
    using t [where tok = "''f''" and i = 0] by (simp add: ex_defs)
  have 6: "insert_go unmarshal_ex isTreeSubset_ex slack_ex seq_ex 0 [''~{}''] x_ex =
     Some (Err (AtoiError ''~{}'') seq_ex)"
    using t [where tok = "''~{}''" and i = 0] by (simp add: ex_defs)
  have 7: "insert_go unmarshal_ex isTreeSubset_ex slack_ex seq_ex 0 [''~{]''] x_ex =
     Some (Err (YamlError ''{]'') seq_ex)"
    using t [where tok = "''~{]''" and i = 0] by (simp add: ex_defs)
  have 8: "insert_go unmarshal_ex isTreeSubset_ex slack_ex twin_ex 9 [''-''] x_ex =
     Some (Ok () \<lparr>Nodes = (Nodes twin_ex)[9 := node_on SequenceNode ''!!seq'' [] 2 3 4] @
                            [mk_node ScalarNode [] [], x_ex],
                  Arrays = [[2, 3, 4, 5], [6, 7], [2, 3, 11, 0]]\<rparr>)"
    using insert_last_token_sequence [OF c, where unm = unmarshal_ex and sub = isTreeSubset_ex
      and slack = slack_ex and val = x_ex and tok = "''-''" and i = 0]
    by (simp add: ex_defs twin_ex_def match.simps)
  have 9: "elems twin_ex (Content (Nodes twin_ex ! 8)) = [2, 3, 4]"
    by (simp add: ex_defs twin_ex_def)
  have 10: "elems \<lparr>Nodes = (Nodes twin_ex)[9 := node_on SequenceNode ''!!seq'' [] 2 3 4] @
                    [mk_node ScalarNode [] [], x_ex],
          Arrays = [[2, 3, 4, 5], [6, 7], [2, 3, 11, 0]]\<rparr> (Content (Nodes twin_ex ! 8)) =
     [2, 3, 11]"
    by (simp add: ex_defs twin_ex_def)
  from 1 2 3 4 5 6 7 8 9 10 show ?thesis by simp
qed

section \<open>Empty results of FindAll\<close>






section \<open>The two branches of a non-terminal step on a sequence\<close>

text \<open>
  The new mapping that \<^verbatim>\<open>sequenceInsert\<close> builds: three new nodes, and a new array
  with the addresses of the key and of the value for the content of the first.
\<close>

lemma new_mapping:
  "append_Content slack (alloc h [mk_node MappingNode ''!!map'' [], kn, vn])
     (length (Nodes h)) [Suc (length (Nodes h)), Suc (Suc (length (Nodes h)))] =
   \<lparr>Nodes = Nodes h @
       [(mk_node MappingNode ''!!map'' [])
          \<lparr>Content := \<lparr>Arr = length (Arrays h), Off = 0, Len = 2, Cap = 2 + slack 0 2\<rparr>\<rparr>,
        kn, vn],
     Arrays = Arrays h @
       [[length (Nodes h) + 1, length (Nodes h) + 2] @ replicate (slack 0 2) 0]\<rparr>"
  by (cases h)
     (simp add: append_Content_def append_go_def alloc_def set_Content_def set_node_def
        mk_node_def nil_slice_def elems_def Let_def numeral_2_eq_2)

text \<open>
  The index \<^verbatim>\<open>1\<close> of \<^verbatim>\<open>[{name: app}, s]\<close> selects the scalar \<^verbatim>\<open>s\<close>, an element of
  the sequence; inserting at \<^verbatim>\<open>/1/k\<close> builds the new mapping \<^verbatim>\<open>{k: x}\<close> and puts it
  at position 1, before \<^verbatim>\<open>s\<close>.
\<close>

theorem sequenceInsert_synthesizes_for_existing_scalar_counterexample:
  "insert_go unmarshal_ex isTreeSubset_ex slack_ex seq_ex 0 [''1'', ''k''] x_ex =
     Some (Ok () \<lparr>Nodes = (Nodes seq_ex)[0 := node_on SequenceNode ''!!seq'' [] 0 3 4] @
                    [node_on MappingNode ''!!map'' [] 2 2 2,
                     mk_node ScalarNode ''!!str'' ''k'',
                     x_ex,
                     node_on MappingNode ''!!map'' [] 2 2 2],
                  Arrays = [[1, 8, 2, 0], [3, 4], [6, 7]]\<rparr>)"
  by (simp add: ex_defs match.simps)

text \<open>
  Claim C5, amended. In a non-terminal step on a sequence, let \<open>n0\<close> be the first node
  the matcher returns. When the kind of \<open>n0\<close> is not Scalar, insertion continues in
  \<open>n0\<close> with the remaining tokens. When the kind of \<open>n0\<close> is Scalar, a new mapping
  with the single key \<^verbatim>\<open>toks[1]\<close> and an empty mapping as its value is built and put
  into the sequence at the position the token names, and insertion continues in the
  new mapping with the remaining tokens. For the token \<^verbatim>\<open>-\<close> the matched node is
  the dummy scalar, so this second branch is taken; it is also taken when the token
  selects a scalar element of the sequence.
\<close>

theorem sequenceInsert_nonterminal_branch:
  assumes "lookup h root = Some r" and "Kind r = SequenceNode" and "toks \<noteq> []"
    and "match unm sub h root tok = Some (Ok (n0 # ns) h1)" and "lookup h1 n0 = Some nn"
  shows "(Kind nn \<noteq> ScalarNode \<longrightarrow>
            insert_go unm sub slack h root (tok # toks) val = insert_go unm sub slack h1 n0 toks val)
       \<and> (Kind nn = ScalarNode \<longrightarrow>
            insert_go unm sub slack h root (tok # toks) val =
              (case sequenceInsertAt slack
                      \<lparr>Nodes = Nodes h1 @
                         [(mk_node MappingNode ''!!map'' [])
                            \<lparr>Content := \<lparr>Arr = length (Arrays h1), Off = 0, Len = 2,
                                          Cap = 2 + slack 0 2\<rparr>\<rparr>,
                          mk_node ScalarNode ''!!str'' (hd toks),
                          mk_node MappingNode ''!!map'' []],
                       Arrays = Arrays h1 @
                         [[length (Nodes h1) + 1, length (Nodes h1) + 2] @
                          replicate (slack 0 2) 0]\<rparr>
                      root tok
                      ((mk_node MappingNode ''!!map'' [])
                         \<lparr>Content := \<lparr>Arr = length (Arrays h1), Off = 0, Len = 2,
                                       Cap = 2 + slack 0 2\<rparr>\<rparr>) of
                 Panic \<Rightarrow> Some Panic
               | Err err h4 \<Rightarrow> Some (Err err h4)
               | Ok u h4 \<Rightarrow> insert_go unm sub slack h4 (length (Nodes h1)) toks val))
       \<and> (tok = ''-'' \<longrightarrow> n0 = length (Nodes h) \<and> nn = mk_node ScalarNode [] [])"
proof -
  have "tok = ''-'' \<longrightarrow> n0 = length (Nodes h) \<and> nn = mk_node ScalarNode [] []"
    using assms by (auto simp: match_Sequence HasPrefix_def lookup_def)
  then show ?thesis
    using assms by (simp add: Let_def new_mapping)
qed

theorem sequenceInsert_nonterminal_branch_witness:
  "insert_go unmarshal_ex isTreeSubset_ex slack_ex seq_ex 0 [''0'', ''k''] x_ex =
     insert_go unmarshal_ex isTreeSubset_ex slack_ex seq_ex 1 [''k''] x_ex \<and>
   insert_go unmarshal_ex isTreeSubset_ex slack_ex seq_ex 0 [''-'', ''k''] x_ex =
     Some (Ok () \<lparr>Nodes = (Nodes seq_ex)[0 := node_on SequenceNode ''!!seq'' [] 0 3 4] @
                    [mk_node ScalarNode [] [],
                     node_on MappingNode ''!!map'' [] 2 2 2,
                     mk_node ScalarNode ''!!str'' ''k'',
                     x_ex,
                     node_on MappingNode ''!!map'' [] 2 2 2],
                  Arrays = [[1, 2, 9, 0], [3, 4], [7, 8]]\<rparr>)"
proof -
  have a: "lookup seq_ex 0 = Some (Nodes seq_ex ! 0)" "Kind (Nodes seq_ex ! 0) = SequenceNode"
    "[''k''] \<noteq> []"
    by (simp_all add: seq_ex_def mk_node_def node_on_def lookup_def)
  have m0: "match unmarshal_ex isTreeSubset_ex seq_ex 0 ''0'' = Some (Ok (1 # []) seq_ex)"
    by (simp add: ex_defs match.simps)
  have l0: "lookup seq_ex 1 = Some (Nodes seq_ex ! 1)"
    by (simp add: seq_ex_def lookup_def)
  have 1: "insert_go unmarshal_ex isTreeSubset_ex slack_ex seq_ex 0 [''0'', ''k''] x_ex =
     insert_go unmarshal_ex isTreeSubset_ex slack_ex seq_ex 1 [''k''] x_ex"
    using sequenceInsert_nonterminal_branch [OF a m0 l0, where val = x_ex and slack = slack_ex]
    by (simp add: seq_ex_def mk_node_def node_on_def)
  let ?h1 = "alloc seq_ex [mk_node ScalarNode [] []]"
  have m1: "match unmarshal_ex isTreeSubset_ex seq_ex 0 ''-'' = Some (Ok (5 # []) ?h1)"
    by (simp add: seq_ex_def mk_node_def node_on_def lookup_def HasPrefix_def match.simps)
  have l1: "lookup ?h1 5 = Some (Nodes ?h1 ! 5)"
    by (simp add: seq_ex_def lookup_def)
  have 2: "insert_go unmarshal_ex isTreeSubset_ex slack_ex seq_ex 0 [''-'', ''k''] x_ex =
     Some (Ok () \<lparr>Nodes = (Nodes seq_ex)[0 := node_on SequenceNode ''!!seq'' [] 0 3 4] @
                    [mk_node ScalarNode [] [],
                     node_on MappingNode ''!!map'' [] 2 2 2,
                     mk_node ScalarNode ''!!str'' ''k'',
                     x_ex,
                     node_on MappingNode ''!!map'' [] 2 2 2],
                  Arrays = [[1, 2, 9, 0], [3, 4], [7, 8]]\<rparr>)"
    using sequenceInsert_nonterminal_branch [OF a m1 l1, where val = x_ex and slack = slack_ex]
    by (simp add: ex_defs match.simps)
  from 1 2 show ?thesis by simp
qed

section \<open>Matching a token against a mapping\<close>

lemma mapScan_first:
  "even (length c) \<Longrightarrow> \<forall>k \<in> set c. k < length (Nodes h) \<Longrightarrow> i < length c div 2 \<Longrightarrow>
   Value (Nodes h ! (c ! (2 * i))) = tok \<Longrightarrow> \<forall>j < i. Value (Nodes h ! (c ! (2 * j))) \<noteq> tok \<Longrightarrow>
   mapScan h c tok = Found (c ! (2 * i + 1))"
proof (induction h c tok arbitrary: i rule: mapScan.induct)
  case (1 h key val c tok)
  show ?case
  proof (cases i)
    case 0
    with 1 show ?thesis by (simp add: lookup_def)
  next
    case (Suc i')
    from 1(6) Suc have k0: "Value (Nodes h ! key) \<noteq> tok" by auto
    have "\<forall>j<i'. Value (Nodes h ! (c ! (2 * j))) \<noteq> tok"
    proof (intro allI impI)
      fix j assume "j < i'"
      then have "Suc j < i" using Suc by simp
      with 1(6) have "Value (Nodes h ! ((key # val # c) ! (2 * Suc j))) \<noteq> tok" by blast
      then show "Value (Nodes h ! (c ! (2 * j))) \<noteq> tok" by simp
    qed
    moreover have "lookup h key = Some (Nodes h ! key)" using 1(3) by (simp add: lookup_def)
    ultimately have "mapScan h c tok = Found (c ! (2 * i' + 1))"
      using 1 Suc k0 by (intro 1(1)) auto
    then show ?thesis using 1 Suc k0 by (simp add: lookup_def)
  qed
qed simp_all

lemma mapScan_none:
  "even (length c) \<Longrightarrow> \<forall>k \<in> set c. k < length (Nodes h) \<Longrightarrow>
   \<forall>j < length c div 2. Value (Nodes h ! (c ! (2 * j))) \<noteq> tok \<Longrightarrow>
   mapScan h c tok = Exhausted"
proof (induction h c tok rule: mapScan.induct)
  case (1 h key val c tok)
  from 1(4) have k0: "Value (Nodes h ! key) \<noteq> tok" by auto
  have "\<forall>j<length c div 2. Value (Nodes h ! (c ! (2 * j))) \<noteq> tok"
  proof (intro allI impI)
    fix j assume "j < length c div 2"
    then have "Suc j < length (key # val # c) div 2" by simp
    with 1(4) have "Value (Nodes h ! ((key # val # c) ! (2 * Suc j))) \<noteq> tok" by blast
    then show "Value (Nodes h ! (c ! (2 * j))) \<noteq> tok" by simp
  qed
  then show ?case using 1 k0 by (simp add: lookup_def)
qed simp_all

text \<open>
  Claim C6. Matching a token against a mapping node whose children are all allocated:
  if the content length is odd the result is the MalformedTree error; otherwise the
  pairs are scanned in order, and the result is the value node of the first pair whose
  key has the token as its value, as a one-element list; if no key equals the token the
  result is the NotFound error.
\<close>

theorem match_mapping:
  assumes "lookup h root = Some r" and "Kind r = MappingNode"
    and "\<forall>k \<in> set (elems h (Content r)). k < length (Nodes h)"
  shows "(odd (length (elems h (Content r))) \<longrightarrow>
            match unm sub h root tok = Some (Err (MalformedTree (length (elems h (Content r)))) h))
       \<and> (even (length (elems h (Content r))) \<and> i < length (elems h (Content r)) div 2 \<and>
          Value (Nodes h ! (elems h (Content r) ! (2 * i))) = tok \<and>
          (\<forall>j < i. Value (Nodes h ! (elems h (Content r) ! (2 * j))) \<noteq> tok) \<longrightarrow>
            match unm sub h root tok = Some (Ok [elems h (Content r) ! (2 * i + 1)] h))
       \<and> (even (length (elems h (Content r))) \<and>
          (\<forall>j < length (elems h (Content r)) div 2.
              Value (Nodes h ! (elems h (Content r) ! (2 * j))) \<noteq> tok) \<longrightarrow>
            match unm sub h root tok = Some (Err (Wrap tok ErrNotFound) h))"
  using assms
  by (auto simp: match_Mapping mapScan_first mapScan_none odd_iff_mod_2_eq_one)

theorem match_mapping_witness:
  "match unmarshal_ex isTreeSubset_ex doc_ex 1 ''d'' = Some (Ok [9] doc_ex) \<and>
   match unmarshal_ex isTreeSubset_ex doc_ex 1 ''z'' = Some (Err (Wrap ''z'' ErrNotFound) doc_ex) \<and>
   match unmarshal_ex isTreeSubset_ex
     \<lparr>Nodes = [node_on MappingNode [] [] 0 1 1, mk_node ScalarNode [] ''k''], Arrays = [[1]]\<rparr>
     0 ''k'' =
     Some (Err (MalformedTree 1)
       \<lparr>Nodes = [node_on MappingNode [] [] 0 1 1, mk_node ScalarNode [] ''k''], Arrays = [[1]]\<rparr>)"
proof -
  let ?o = "\<lparr>Nodes = [node_on MappingNode [] [] 0 1 1, mk_node ScalarNode [] ''k''],
             Arrays = [[1]]\<rparr>"
  have a: "lookup doc_ex 1 = Some (Nodes doc_ex ! 1)" "Kind (Nodes doc_ex ! 1) = MappingNode"
    "\<forall>k \<in> set (elems doc_ex (Content (Nodes doc_ex ! 1))). k < length (Nodes doc_ex)"
    by (simp_all add: ex_defs)
  have b: "lookup ?o 0 = Some (Nodes ?o ! 0)" "Kind (Nodes ?o ! 0) = MappingNode"
    "\<forall>k \<in> set (elems ?o (Content (Nodes ?o ! 0))). k < length (Nodes ?o)"
    by (simp_all add: ex_defs)
  have "match unmarshal_ex isTreeSubset_ex doc_ex 1 ''d'' = Some (Ok [9] doc_ex)"
    using match_mapping [OF a, where i = 1 and tok = "''d''" and unm = unmarshal_ex and sub = isTreeSubset_ex]
    by (simp add: ex_defs less_Suc_eq)
  moreover have "match unmarshal_ex isTreeSubset_ex doc_ex 1 ''z'' = Some (Err (Wrap ''z'' ErrNotFound) doc_ex)"
    using match_mapping [OF a, where i = 0 and tok = "''z''" and unm = unmarshal_ex and sub = isTreeSubset_ex]
    by (simp add: ex_defs less_Suc_eq)
  moreover have "match unmarshal_ex isTreeSubset_ex ?o 0 ''k'' = Some (Err (MalformedTree 1) ?o)"
    using match_mapping [OF b, where i = 0 and tok = "''k''"
        and unm = unmarshal_ex and sub = isTreeSubset_ex]
    by (simp add: ex_defs)
  ultimately show ?thesis by simp
qed

section \<open>Propagation of errors\<close>








section \<open>The resolver on an empty token list\<close>

theorem find_empty_tokens_counterexample:
  "find_go unmarshal_ex isTreeSubset_ex doc_ex 0 [] = Some Panic \<and>
   find_go unmarshal_ex isTreeSubset_ex doc_ex 0 [] \<noteq> Some (Ok [0] doc_ex)"
  by simp

lemma Split_nonempty: "Split s \<noteq> []"
  by (induction s) (auto split: list.splits)

lemma tokens_nonempty:
  "jsonPointerToTokens ptr = Inr toks \<Longrightarrow> ptr \<noteq> [] \<Longrightarrow> toks \<noteq> []"
  using Split_nonempty
  by (cases ptr)
     (auto simp: jsonPointerToTokens_def ValidateJSONPointer_def HasPrefix_def
           split: if_splits)

text \<open>
  Claim C8, amended. For every root node, \<^verbatim>\<open>find\<close> applied to an empty token list
  does not return the root: it reads \<^verbatim>\<open>toks[0]\<close> and panics. \<^verbatim>\<open>FindAll\<close> never
  applies it to an empty token list: it rejects the empty pointer with an error, it
  returns the error of the tokenizer for a pointer the tokenizer rejects, and for every
  other pointer it applies \<^verbatim>\<open>find\<close> to the tokens of the pointer, of which there is at
  least one.
\<close>

theorem find_empty_tokens_panics:
  "find_go unm sub h root [] = Some Panic \<and>
   FindAll unm sub h root [] = Some (Err InvalidEmptyPointer h) \<and>
   (jsonPointerToTokens ptr = Inl e \<longrightarrow> FindAll unm sub h root ptr = Some (Err e h)) \<and>
   (ptr \<noteq> [] \<and> jsonPointerToTokens ptr = Inr toks \<longrightarrow>
      toks \<noteq> [] \<and>
      FindAll unm sub h root ptr =
        (case find_go unm sub h root toks of
           None \<Rightarrow> None
         | Some Panic \<Rightarrow> Some Panic
         | Some (Err err h1) \<Rightarrow> Some (Err (Wrap ptr err) h1)
         | Some (Ok res h1) \<Rightarrow> Some (Ok res h1)))"
proof -
  have "jsonPointerToTokens ptr = Inl e \<longrightarrow> FindAll unm sub h root ptr = Some (Err e h)"
    by (auto simp: FindAll_def jsonPointerToTokens_def split: if_splits)
  moreover have "ptr \<noteq> [] \<and> jsonPointerToTokens ptr = Inr toks \<longrightarrow>
      toks \<noteq> [] \<and>
      FindAll unm sub h root ptr =
        (case find_go unm sub h root toks of
           None \<Rightarrow> None
         | Some Panic \<Rightarrow> Some Panic
         | Some (Err err h1) \<Rightarrow> Some (Err (Wrap ptr err) h1)
         | Some (Ok res h1) \<Rightarrow> Some (Ok res h1))"
    using tokens_nonempty [of ptr toks] by (simp add: FindAll_def)
  ultimately show ?thesis by (simp add: FindAll_def)
qed

theorem find_empty_tokens_panics_witness:
  "jsonPointerToTokens ''/'' = Inr [[]] \<and>
   FindAll unmarshal_ex isTreeSubset_ex doc_ex 0 ''/'' =
     Some (Err (Wrap ''/'' (Wrap [] ErrNotFound)) doc_ex) \<and>
   FindAll unmarshal_ex isTreeSubset_ex doc_ex 0 ''d'' = Some (Err PointerSyntax doc_ex) \<and>
   FindAll unmarshal_ex isTreeSubset_ex doc_ex 0 ''/d'' = Some (Ok [9] doc_ex)"
proof -
  have t: "jsonPointerToTokens ''/'' = Inr [[]]" "jsonPointerToTokens ''d'' = Inl PointerSyntax"
    "jsonPointerToTokens ''/d'' = Inr [''d'']"
    by (simp_all add: ex_defs)
  note e = find_empty_tokens_panics [where unm = unmarshal_ex and sub = isTreeSubset_ex
      and h = doc_ex and root = 0]
  have 1: "FindAll unmarshal_ex isTreeSubset_ex doc_ex 0 ''/'' =
     Some (Err (Wrap ''/'' (Wrap [] ErrNotFound)) doc_ex)"
    using e [where ptr = "''/''" and toks = "[[]]"] t by (simp add: ex_defs match.simps)
  have 2: "FindAll unmarshal_ex isTreeSubset_ex doc_ex 0 ''d'' = Some (Err PointerSyntax doc_ex)"
    using e [where ptr = "''d''" and e = PointerSyntax] t by simp
  have 3: "FindAll unmarshal_ex isTreeSubset_ex doc_ex 0 ''/d'' = Some (Ok [9] doc_ex)"
    using e [where ptr = "''/d''" and toks = "[''d'']"] t by (simp add: ex_defs match.simps)
  from t(1) 1 2 3 show ?thesis by simp
qed

section \<open>A predicate token that matches nothing, during insertion\<close>

text \<open>
  Claim C9. If a non-terminal token of an insertion addresses a sequence and is a
  predicate token \<^verbatim>\<open>~{...}\<close> that parses and that no element of the sequence
  satisfies, the insertion returns no error: it reads \<^verbatim>\<open>next[0]\<close> of the empty list of
  matches and panics.
\<close>

theorem sequenceInsert_predicate_no_match_panics:
  assumes "lookup h root = Some r" and "Kind r = SequenceNode"
    and "HasPrefix tok ''~{''" and "unm (tl tok) = Some p"
    and "\<forall>c \<in> set (elems h (Content r)). \<not> sub p h c"
    and "toks \<noteq> []"
  shows "insert_go unm sub slack h root (tok # toks) val = Some Panic"
proof -
  have "filter (sub p h) (elems h (Content r)) = []"
    using assms(5) by (simp add: filter_empty_conv)
  then have "match unm sub h root tok = Some (Ok [] h)"
    using assms by (simp add: match_Sequence filter_go_def)
  then show ?thesis
    using assms by simp
qed

theorem sequenceInsert_predicate_no_match_panics_witness:
  "insert_go unmarshal_ex isTreeSubset_ex slack_ex doc_ex 9 [''~{}'', ''c''] x_ex = Some Panic \<and>
   Insert unmarshal_ex isTreeSubset_ex slack_ex doc_ex 0 ''/d/~{}/c'' x_ex = Some Panic"
proof -
  have "insert_go unmarshal_ex isTreeSubset_ex slack_ex doc_ex 9 [''~{}'', ''c''] x_ex = Some Panic"
    by (rule sequenceInsert_predicate_no_match_panics [where p = "()" and r = "Nodes doc_ex ! 9"])
       (simp_all add: ex_defs)
  moreover have "Insert unmarshal_ex isTreeSubset_ex slack_ex doc_ex 0 ''/d/~{}/c'' x_ex =
     insert_go unmarshal_ex isTreeSubset_ex slack_ex doc_ex 9 [''~{}'', ''c''] x_ex"
    by (simp add: Insert_def ex_defs match.simps)
  ultimately show ?thesis by simp
qed

section \<open>The dummy node of the token \<^verbatim>\<open>-\<close> in lookups\<close>





end
